theory Spec2Isabelle
  imports Main "HOL-Library.Word"
begin

unbundle bit_operations_syntax

section \<open>TCP QVegas congestion control (tcp\_qvegas.c)\<close>

text \<open>
  A shallow embedding of \<^verbatim>\<open>src/tcp_qvegas.c\<close>. The C types are kept: \<^verbatim>\<open>u32\<close>,
  \<^verbatim>\<open>u16\<close>, \<^verbatim>\<open>u8\<close> and \<^verbatim>\<open>u64\<close> are words of that width (arithmetic wraps,
  comparison and division are unsigned). An \<^verbatim>\<open>int\<close> or \<^verbatim>\<open>s32\<close> is a 32-bit word too, read
  as two's complement (\<open>sint\<close>, \<open><s\<close>) where the code reads it signed; converting it to
  \<^verbatim>\<open>u32\<close>, as C does when it meets an unsigned operand, keeps the bits.
\<close>

type_synonym u8 = "8 word"
type_synonym u16 = "16 word"
type_synonym u32 = "32 word"
type_synonym u64 = "64 word"
type_synonym s32 = "32 word"

subsection \<open>Data model\<close>

text \<open>\<^verbatim>\<open>struct qvegas\<close> (lines 44-54), the private area returned by \<^verbatim>\<open>inet_csk_ca(sk)\<close>.\<close>

record qvegas =
  beg_snd_nxt :: u32
  beg_snd_una :: u32
  beg_snd_cwnd :: u32
  lost_cwnd :: u32
  reno_inc :: u32
  doing_qvegas_now :: u8
  cntRTT :: u16
  minRTT :: u32
  baseRTT :: u32

text \<open>
  The fields of the host's \<^verbatim>\<open>struct tcp_sock\<close> that the file reads or writes. The
  struct belongs to the host stack; everything else it holds is the opaque field
  \<open>host_priv\<close>, which only the host's own functions look at.
\<close>

record 'h tcp_sock =
  snd_cwnd :: u32
  snd_ssthresh :: u32
  snd_cwnd_clamp :: u32
  snd_nxt :: u32
  lost_out :: u32
  host_priv :: 'h

text \<open>
  \<^verbatim>\<open>struct sock *sk\<close>: the two views the file takes of it, \<^verbatim>\<open>tcp_sk(sk)\<close> and
  \<^verbatim>\<open>inet_csk_ca(sk)\<close>.
\<close>

record 'h sock =
  tcp_sk :: "'h tcp_sock"
  inet_csk_ca :: qvegas

text \<open>
  The module parameters (lines 56-58), \<^verbatim>\<open>static int\<close>, writable at run time; a call reads
  them from the snapshot it is given. Their defaults are 2, 4 and 1.
\<close>

record tunables =
  alpha :: s32
  beta :: s32
  gamma :: s32

definition default_tunables :: tunables where
  "default_tunables = \<lparr>alpha = 2, beta = 4, gamma = 1\<rparr>"

text \<open>
  The collaborators of the host stack that the file calls but does not define
  (\<^verbatim>\<open>net/tcp.h\<close>): they are parameters of the model. The host functions act on the
  transport state only, never on the private area of the congestion control.
  \<open>seq_after a b\<close> is the macro \<^verbatim>\<open>after(a, b)\<close>; the value \<^verbatim>\<open>tcp_slow_start\<close> returns is
  ignored by every caller in the file, so only its effect on the state is taken.
\<close>

record 'h host =
  TCP_INIT_CWND :: u32
  TCP_CA_Open :: u8
  seq_after :: "u32 \<Rightarrow> u32 \<Rightarrow> bool"
  tcp_in_slow_start :: "'h tcp_sock \<Rightarrow> bool"
  tcp_slow_start :: "'h tcp_sock \<Rightarrow> u32 \<Rightarrow> 'h tcp_sock"
  tcp_reno_cong_avoid :: "'h tcp_sock \<Rightarrow> u32 \<Rightarrow> u32 \<Rightarrow> 'h tcp_sock"
  tcp_current_ssthresh :: "'h tcp_sock \<Rightarrow> u32"

datatype tcp_ca_event =
  CA_EVENT_TX_START | CA_EVENT_CWND_RESTART | CA_EVENT_COMPLETE_CWR | CA_EVENT_LOSS
  | CA_EVENT_ECN_NO_CE | CA_EVENT_ECN_IS_CE

text \<open>The one way the code can trap: an integer division by zero.\<close>

datatype fault = DivideError

subsection \<open>Mode controller\<close>

text \<open>\<^verbatim>\<open>qvegas_enable\<close> (lines 83-97).\<close>

definition qvegas_enable :: "'h sock \<Rightarrow> 'h sock" where
  "qvegas_enable sk =
     sk\<lparr>inet_csk_ca := (inet_csk_ca sk)
        \<lparr>doing_qvegas_now := 1,
         beg_snd_nxt := snd_nxt (tcp_sk sk),
         cntRTT := 0,
         reno_inc := 0,
         minRTT := 0x7fffffff\<rparr>\<rparr>"

text \<open>\<^verbatim>\<open>qvegas_disable\<close> (lines 100-105).\<close>

definition qvegas_disable :: "'h sock \<Rightarrow> 'h sock" where
  "qvegas_disable sk = sk\<lparr>inet_csk_ca := (inet_csk_ca sk)\<lparr>doing_qvegas_now := 0\<rparr>\<rparr>"

text \<open>\<^verbatim>\<open>tcp_qvegas_init\<close> (lines 107-115).\<close>

definition tcp_qvegas_init :: "'h host \<Rightarrow> 'h sock \<Rightarrow> 'h sock" where
  "tcp_qvegas_init H sk =
     (let sk1 = (if baseRTT (inet_csk_ca sk) = 0
                 then sk\<lparr>inet_csk_ca := (inet_csk_ca sk)\<lparr>lost_cwnd := TCP_INIT_CWND H\<rparr>\<rparr>
                 else sk);
          sk2 = sk1\<lparr>inet_csk_ca := (inet_csk_ca sk1)\<lparr>baseRTT := 0x7fffffff\<rparr>\<rparr>
      in qvegas_enable sk2)"

subsection \<open>RTT sampler\<close>

text \<open>
  \<^verbatim>\<open>tcp_qvegas_pkts_acked\<close> (lines 126-146). Of the host's \<^verbatim>\<open>struct ack_sample\<close> only
  the field \<^verbatim>\<open>rtt_us\<close> (an \<^verbatim>\<open>s32\<close>) is read, so it is the argument. \<open>vrtt\<close> is
  \<^verbatim>\<open>sample->rtt_us + 1\<close> stored into a \<^verbatim>\<open>u32\<close>.
\<close>

definition vrtt_of :: "s32 \<Rightarrow> u32" where
  "vrtt_of rtt_us = rtt_us + 1"

definition tcp_qvegas_pkts_acked :: "'h sock \<Rightarrow> s32 \<Rightarrow> 'h sock" where
  "tcp_qvegas_pkts_acked sk rtt_us =
     (if rtt_us <s 0 then sk
      else
        let vrtt = vrtt_of rtt_us;
            q = inet_csk_ca sk;
            q1 = (if vrtt < baseRTT q then q\<lparr>baseRTT := vrtt\<rparr> else q);
            q2 = q1\<lparr>minRTT := min (minRTT q1) vrtt\<rparr>;
            q3 = q2\<lparr>cntRTT := cntRTT q2 + 1\<rparr>
        in sk\<lparr>inet_csk_ca := q3\<rparr>)"

text \<open>\<^verbatim>\<open>qvegas_undo_cwnd\<close> (lines 149-154).\<close>

definition qvegas_undo_cwnd :: "'h sock \<Rightarrow> u32" where
  "qvegas_undo_cwnd sk = max (lost_cwnd (inet_csk_ca sk)) 2"

text \<open>\<^verbatim>\<open>tcp_qvegas_state\<close> (lines 156-167).\<close>

definition tcp_qvegas_state :: "'h host \<Rightarrow> 'h sock \<Rightarrow> u8 \<Rightarrow> 'h sock" where
  "tcp_qvegas_state H sk ca_state =
     (if ca_state = TCP_CA_Open H then
        let sk1 = qvegas_enable sk
        in sk1\<lparr>tcp_sk := (tcp_sk sk1)\<lparr>snd_cwnd := max (lost_cwnd (inet_csk_ca sk1)) 2\<rparr>\<rparr>
      else qvegas_disable sk)"

text \<open>\<^verbatim>\<open>tcp_qvegas_cwnd_event\<close> (lines 179-184).\<close>

definition tcp_qvegas_cwnd_event :: "'h host \<Rightarrow> 'h sock \<Rightarrow> tcp_ca_event \<Rightarrow> 'h sock" where
  "tcp_qvegas_cwnd_event H sk event =
     (if event = CA_EVENT_CWND_RESTART \<or> event = CA_EVENT_TX_START
      then tcp_qvegas_init H sk else sk)"

subsection \<open>Threshold helper\<close>

text \<open>
  \<^verbatim>\<open>tcp_qvegas_ssthresh\<close> (lines 187-195): the returned threshold and the state it
  leaves. In C the binary minus binds tighter than the shift, so the expression
  \<^verbatim>\<open>tp->snd_cwnd - qvegas->reno_inc>>1U\<close> is \<^verbatim>\<open>(tp->snd_cwnd - qvegas->reno_inc) >> 1U\<close>.
\<close>

definition tcp_qvegas_ssthresh :: "'h sock \<Rightarrow> u32 \<times> 'h sock" where
  "tcp_qvegas_ssthresh sk =
     (let tp = tcp_sk sk;
          q = inet_csk_ca sk;
          sk1 = (if lost_out tp \<noteq> 0
                 then sk\<lparr>inet_csk_ca := q\<lparr>lost_cwnd := max (drop_bit 1 (snd_cwnd tp - reno_inc q)) 2\<rparr>\<rparr>
                 else sk)
      in (max (min (snd_ssthresh tp) (snd_cwnd tp - 1)) 2, sk1))"

subsection \<open>Round-trip decision engine\<close>

text \<open>
  The fallback step, written twice in the file with the same three statements (lines
  203-205 and 228-230): run the host's Reno growth and add the window delta to
  \<^verbatim>\<open>reno_inc\<close>.
\<close>

definition qvegas_reno :: "'h host \<Rightarrow> 'h sock \<Rightarrow> u32 \<Rightarrow> u32 \<Rightarrow> 'h sock" where
  "qvegas_reno H sk ack acked =
     (let cwnd = snd_cwnd (tcp_sk sk);
          sk1 = sk\<lparr>tcp_sk := tcp_reno_cong_avoid H (tcp_sk sk) ack acked\<rparr>
      in sk1\<lparr>inet_csk_ca := (inet_csk_ca sk1)
           \<lparr>reno_inc := reno_inc (inet_csk_ca sk1) + (snd_cwnd (tcp_sk sk1) - cwnd)\<rparr>\<rparr>)"

text \<open>
  Lines 246-255: \<^verbatim>\<open>target_cwnd = (u64)tp->snd_cwnd * qvegas->baseRTT\<close>, then
  \<^verbatim>\<open>do_div(target_cwnd, rtt)\<close>, the kernel's division of a \<^verbatim>\<open>u64\<close> by a \<^verbatim>\<open>u32\<close> in
  place. A zero divisor traps.
\<close>

definition qvegas_target_cwnd :: "'h sock \<Rightarrow> fault + u64" where
  "qvegas_target_cwnd sk =
     (let rtt = minRTT (inet_csk_ca sk);
          target_cwnd = (ucast (snd_cwnd (tcp_sk sk)) :: u64) * ucast (baseRTT (inet_csk_ca sk))
      in if rtt = 0 then Inl DivideError else Inr (target_cwnd div ucast rtt))"

text \<open>
  Line 261: \<^verbatim>\<open>diff = tp->snd_cwnd * (rtt-qvegas->baseRTT) / qvegas->baseRTT\<close>, all in
  \<^verbatim>\<open>u32\<close>: the difference and the product wrap.
\<close>

definition qvegas_diff :: "'h sock \<Rightarrow> fault + u32" where
  "qvegas_diff sk =
     (let rtt = minRTT (inet_csk_ca sk);
          base = baseRTT (inet_csk_ca sk)
      in if base = 0 then Inl DivideError
         else Inr ((snd_cwnd (tcp_sk sk) * (rtt - base)) div base))"

text \<open>
  Lines 263-304: the branch on \<^verbatim>\<open>diff\<close>. In \<^verbatim>\<open>diff > gamma\<close>, \<^verbatim>\<open>diff > beta\<close> and
  \<^verbatim>\<open>diff < alpha\<close> the left operand is a \<^verbatim>\<open>u32\<close> and the right one an \<^verbatim>\<open>int\<close>, so C
  converts the \<^verbatim>\<open>int\<close> to \<^verbatim>\<open>u32\<close> and compares unsigned.
\<close>

definition qvegas_adjust ::
  "'h host \<Rightarrow> tunables \<Rightarrow> 'h sock \<Rightarrow> u32 \<Rightarrow> u64 \<Rightarrow> u32 \<Rightarrow> 'h sock" where
  "qvegas_adjust H P sk acked target_cwnd diff =
     (let tp = tcp_sk sk in
      if gamma P < diff \<and> tcp_in_slow_start H tp then
        let sk1 = sk\<lparr>tcp_sk := tp\<lparr>snd_cwnd := min (snd_cwnd tp) (ucast target_cwnd + 1)\<rparr>\<rparr>;
            r = tcp_qvegas_ssthresh sk1
        in (snd r)\<lparr>tcp_sk := (tcp_sk (snd r))\<lparr>snd_ssthresh := fst r\<rparr>\<rparr>
      else if tcp_in_slow_start H tp then
        sk\<lparr>tcp_sk := tcp_slow_start H tp acked\<rparr>
      else if beta P < diff then
        let sk1 = sk\<lparr>tcp_sk := tp\<lparr>snd_cwnd := snd_cwnd tp - 1\<rparr>\<rparr>;
            r = tcp_qvegas_ssthresh sk1
        in (snd r)\<lparr>tcp_sk := (tcp_sk (snd r))\<lparr>snd_ssthresh := fst r\<rparr>\<rparr>
      else if diff < alpha P then
        sk\<lparr>tcp_sk := tp\<lparr>snd_cwnd := snd_cwnd tp + 1\<rparr>\<rparr>
      else sk)"

text \<open>Lines 306-309: the floor of 4 and, otherwise, the clamp ceiling.\<close>

definition qvegas_clamp :: "'h sock \<Rightarrow> 'h sock" where
  "qvegas_clamp sk =
     (let tp = tcp_sk sk in
      if snd_cwnd tp < 4 then sk\<lparr>tcp_sk := tp\<lparr>snd_cwnd := 4\<rparr>\<rparr>
      else if snd_cwnd_clamp tp < snd_cwnd tp then sk\<lparr>tcp_sk := tp\<lparr>snd_cwnd := snd_cwnd_clamp tp\<rparr>\<rparr>
      else sk)"

text \<open>Line 311: \<^verbatim>\<open>tp->snd_ssthresh = tcp_current_ssthresh(sk)\<close>.\<close>

definition qvegas_set_ssthresh :: "'h host \<Rightarrow> 'h sock \<Rightarrow> 'h sock" where
  "qvegas_set_ssthresh H sk =
     sk\<lparr>tcp_sk := (tcp_sk sk)\<lparr>snd_ssthresh := tcp_current_ssthresh H (tcp_sk sk)\<rparr>\<rparr>"

text \<open>Lines 232-311: the \<^verbatim>\<open>else\<close> block taken when \<^verbatim>\<open>cntRTT > 2\<close>.\<close>

definition qvegas_decide :: "'h host \<Rightarrow> tunables \<Rightarrow> 'h sock \<Rightarrow> u32 \<Rightarrow> fault + 'h sock" where
  "qvegas_decide H P sk acked =
     (case qvegas_target_cwnd sk of
        Inl e \<Rightarrow> Inl e
      | Inr target_cwnd \<Rightarrow>
          (case qvegas_diff sk of
             Inl e \<Rightarrow> Inl e
           | Inr diff \<Rightarrow>
               Inr (qvegas_set_ssthresh H
                      (qvegas_clamp (qvegas_adjust H P sk acked target_cwnd diff)))))"

text \<open>Lines 315-317: wipe the slate clean for the next RTT.\<close>

definition qvegas_wipe :: "'h sock \<Rightarrow> 'h sock" where
  "qvegas_wipe sk =
     sk\<lparr>inet_csk_ca := (inet_csk_ca sk)
        \<lparr>cntRTT := 0, minRTT := 0x7fffffff, lost_cwnd := snd_cwnd (tcp_sk sk)\<rparr>\<rparr>"

text \<open>
  Lines 215-216, the start of the once-per-RTT adjustment: the window is set back to
  the saved one and the next measurement window opens at \<^verbatim>\<open>snd_nxt\<close>.
\<close>

definition qvegas_open_window :: "'h sock \<Rightarrow> 'h sock" where
  "qvegas_open_window sk =
     (let sk1 = sk\<lparr>tcp_sk := (tcp_sk sk)\<lparr>snd_cwnd := lost_cwnd (inet_csk_ca sk)\<rparr>\<rparr>
      in sk1\<lparr>inet_csk_ca := (inet_csk_ca sk1)\<lparr>beg_snd_nxt := snd_nxt (tcp_sk sk1)\<rparr>\<rparr>)"

text \<open>\<^verbatim>\<open>tcp_qvegas_cong_avoid\<close> (lines 197-323).\<close>

definition tcp_qvegas_cong_avoid ::
  "'h host \<Rightarrow> tunables \<Rightarrow> 'h sock \<Rightarrow> u32 \<Rightarrow> u32 \<Rightarrow> fault + 'h sock" where
  "tcp_qvegas_cong_avoid H P sk ack acked =
     (if doing_qvegas_now (inet_csk_ca sk) = 0 then Inr (qvegas_reno H sk ack acked)
      else if seq_after H ack (beg_snd_nxt (inet_csk_ca sk)) then
        (let sk2 = qvegas_open_window sk
         in if cntRTT (inet_csk_ca sk2) \<le> 2
            then Inr (qvegas_wipe (qvegas_reno H sk2 ack acked))
            else (case qvegas_decide H P sk2 acked of
                    Inl e \<Rightarrow> Inl e
                  | Inr sk3 \<Rightarrow> Inr (qvegas_wipe sk3)))
      else if tcp_in_slow_start H (tcp_sk sk)
      then Inr (sk\<lparr>tcp_sk := tcp_slow_start H (tcp_sk sk) acked\<rparr>)
      else Inr sk)"

subsection \<open>Runs\<close>

text \<open>
  The calls the host makes through the hooks of \<^verbatim>\<open>tcp_congestion_ops\<close> (lines 345-357),
  and \<open>Host\<close> for what the stack does to its own transport state between two calls.
\<close>

datatype 'h call =
    Init
  | PktsAcked s32
  | SetState u8
  | CwndEvent tcp_ca_event
  | CongAvoid tunables u32 u32
  | Host "'h tcp_sock"

fun qvegas_call :: "'h host \<Rightarrow> 'h sock \<Rightarrow> 'h call \<Rightarrow> fault + 'h sock" where
  "qvegas_call H sk Init = Inr (tcp_qvegas_init H sk)"
| "qvegas_call H sk (PktsAcked rtt_us) = Inr (tcp_qvegas_pkts_acked sk rtt_us)"
| "qvegas_call H sk (SetState ca_state) = Inr (tcp_qvegas_state H sk ca_state)"
| "qvegas_call H sk (CwndEvent event) = Inr (tcp_qvegas_cwnd_event H sk event)"
| "qvegas_call H sk (CongAvoid P ack acked) = tcp_qvegas_cong_avoid H P sk ack acked"
| "qvegas_call H sk (Host tp) = Inr (sk\<lparr>tcp_sk := tp\<rparr>)"

fun run :: "'h host \<Rightarrow> 'h sock \<Rightarrow> 'h call list \<Rightarrow> fault + 'h sock" where
  "run H sk [] = Inr sk"
| "run H sk (c # cs) =
     (case qvegas_call H sk c of Inl e \<Rightarrow> Inl e | Inr sk' \<Rightarrow> run H sk' cs)"

text \<open>The calls that reach \<^verbatim>\<open>tcp_qvegas_init\<close>, the full reset.\<close>

fun is_reset :: "'h call \<Rightarrow> bool" where
  "is_reset Init = True"
| "is_reset (CwndEvent event) = (event = CA_EVENT_CWND_RESTART \<or> event = CA_EVENT_TX_START)"
| "is_reset _ = False"

fun no_reset :: "'h call list \<Rightarrow> bool" where
  "no_reset [] = True"
| "no_reset (c # cs) = (\<not> is_reset c \<and> no_reset cs)"

text \<open>
  The invariant of the two RTT minima: the base RTT is at least 1, at most the minimum of
  the current window and at most the sentinel \<^verbatim>\<open>0x7fffffff\<close>.
\<close>

definition rtt_sane :: "qvegas \<Rightarrow> bool" where
  "rtt_sane q = (1 \<le> baseRTT q \<and> baseRTT q \<le> minRTT q \<and> baseRTT q \<le> 0x7fffffff)"

text \<open>What a call leaves in view: window, threshold and saved window.\<close>

definition outcome :: "fault + 'h sock \<Rightarrow> fault + (u32 \<times> u32 \<times> u32)" where
  "outcome r =
     (case r of
        Inl e \<Rightarrow> Inl e
      | Inr sk \<Rightarrow>
          Inr (snd_cwnd (tcp_sk sk), snd_ssthresh (tcp_sk sk), lost_cwnd (inet_csk_ca sk)))"

text \<open>The RTT bookkeeping a call leaves: base RTT, window minimum and sample count.\<close>

definition rtt_view :: "fault + 'h sock \<Rightarrow> fault + (u32 \<times> u32 \<times> u16)" where
  "rtt_view r =
     (case r of
        Inl e \<Rightarrow> Inl e
      | Inr sk \<Rightarrow>
          Inr (baseRTT (inet_csk_ca sk), minRTT (inet_csk_ca sk), cntRTT (inet_csk_ca sk)))"

subsection \<open>The state-transition reaction as section 4.2 of the specification words it\<close>

text \<open>
  ``On entering the open/recovered congestion state, invoke full reset and set the
  transport window to \<open>max(savedWindowOnLoss, 2)\<close>; on any other state, invoke disable.''
  This definition follows those words, to be compared with \<open>tcp_qvegas_state\<close>.
\<close>

definition spec_state_reaction :: "'h host \<Rightarrow> 'h sock \<Rightarrow> u8 \<Rightarrow> 'h sock" where
  "spec_state_reaction H sk ca_state =
     (if ca_state = TCP_CA_Open H then
        let sk1 = tcp_qvegas_init H sk
        in sk1\<lparr>tcp_sk := (tcp_sk sk1)\<lparr>snd_cwnd := max (lost_cwnd (inet_csk_ca sk1)) 2\<rparr>\<rparr>
      else qvegas_disable sk)"

subsection \<open>A host to run the model on\<close>

text \<open>
  The kernel generation whose interface the file uses (\<^verbatim>\<open>struct ack_sample\<close>, the field
  \<^verbatim>\<open>tp->snd_cwnd\<close>) defines the collaborators as below (Linux 4.9,
  \<^verbatim>\<open>include/net/tcp.h\<close> and \<^verbatim>\<open>net/ipv4/tcp_cong.c\<close>). They are not part of the
  repository: \<open>linux_host\<close> only instantiates the parameter \<open>H\<close> where a run on
  concrete numbers is wanted, and every general statement is proved for an arbitrary host.
\<close>

record linux_priv =
  snd_cwnd_cnt :: u32
  max_packets_out :: u32
  is_cwnd_limited :: bool
  icsk_ca_state :: u8

definition linux_after :: "u32 \<Rightarrow> u32 \<Rightarrow> bool" where
  "linux_after seq2 seq1 = ((seq1 - seq2) <s 0)"

definition linux_in_slow_start :: "linux_priv tcp_sock \<Rightarrow> bool" where
  "linux_in_slow_start tp = (snd_cwnd tp < snd_ssthresh tp)"

definition linux_slow_start_ret :: "linux_priv tcp_sock \<Rightarrow> u32 \<Rightarrow> u32" where
  "linux_slow_start_ret tp acked =
     acked - (min (snd_cwnd tp + acked) (snd_ssthresh tp) - snd_cwnd tp)"

definition linux_slow_start :: "linux_priv tcp_sock \<Rightarrow> u32 \<Rightarrow> linux_priv tcp_sock" where
  "linux_slow_start tp acked =
     tp\<lparr>snd_cwnd := min (min (snd_cwnd tp + acked) (snd_ssthresh tp)) (snd_cwnd_clamp tp)\<rparr>"

definition linux_cong_avoid_ai :: "linux_priv tcp_sock \<Rightarrow> u32 \<Rightarrow> u32 \<Rightarrow> linux_priv tcp_sock" where
  "linux_cong_avoid_ai tp w acked =
     (let c0 = snd_cwnd_cnt (host_priv tp);
          tp1 = (if w \<le> c0
                 then tp\<lparr>snd_cwnd := snd_cwnd tp + 1, host_priv := (host_priv tp)\<lparr>snd_cwnd_cnt := 0\<rparr>\<rparr>
                 else tp);
          c1 = snd_cwnd_cnt (host_priv tp1) + acked;
          tp2 = (if w \<le> c1
                 then tp1\<lparr>snd_cwnd := snd_cwnd tp1 + c1 div w,
                          host_priv := (host_priv tp1)\<lparr>snd_cwnd_cnt := c1 - (c1 div w) * w\<rparr>\<rparr>
                 else tp1\<lparr>host_priv := (host_priv tp1)\<lparr>snd_cwnd_cnt := c1\<rparr>\<rparr>)
      in tp2\<lparr>snd_cwnd := min (snd_cwnd tp2) (snd_cwnd_clamp tp2)\<rparr>)"

definition linux_is_cwnd_limited :: "linux_priv tcp_sock \<Rightarrow> bool" where
  "linux_is_cwnd_limited tp =
     (if linux_in_slow_start tp then snd_cwnd tp < 2 * max_packets_out (host_priv tp)
      else is_cwnd_limited (host_priv tp))"

definition linux_reno_cong_avoid :: "linux_priv tcp_sock \<Rightarrow> u32 \<Rightarrow> u32 \<Rightarrow> linux_priv tcp_sock" where
  "linux_reno_cong_avoid tp ack acked =
     (if \<not> linux_is_cwnd_limited tp then tp
      else if linux_in_slow_start tp then
        (let rest = linux_slow_start_ret tp acked;
             tp1 = linux_slow_start tp acked
         in if rest = 0 then tp1 else linux_cong_avoid_ai tp1 (snd_cwnd tp1) rest)
      else linux_cong_avoid_ai tp (snd_cwnd tp) acked)"

definition linux_current_ssthresh :: "linux_priv tcp_sock \<Rightarrow> u32" where
  "linux_current_ssthresh tp =
     (if icsk_ca_state (host_priv tp) = 2 \<or> icsk_ca_state (host_priv tp) = 3
      then snd_ssthresh tp
      else max (snd_ssthresh tp) (drop_bit 1 (snd_cwnd tp) + drop_bit 2 (snd_cwnd tp)))"

definition linux_host :: "linux_priv host" where
  "linux_host =
     \<lparr>TCP_INIT_CWND = 10,
      TCP_CA_Open = 0,
      seq_after = linux_after,
      tcp_in_slow_start = linux_in_slow_start,
      tcp_slow_start = linux_slow_start,
      tcp_reno_cong_avoid = linux_reno_cong_avoid,
      tcp_current_ssthresh = linux_current_ssthresh\<rparr>"

text \<open>
  Sockets for concrete runs. \<open>priv0\<close> is a host state that is window-limited outside
  slow start and in the open congestion state. The arguments of \<open>mk_sock\<close> are, in order:
  \<^verbatim>\<open>snd_cwnd\<close>, \<^verbatim>\<open>snd_ssthresh\<close>, \<^verbatim>\<open>snd_cwnd_clamp\<close>, \<^verbatim>\<open>lost_out\<close>, \<^verbatim>\<open>lost_cwnd\<close>, \<^verbatim>\<open>reno_inc\<close>,
  \<^verbatim>\<open>cntRTT\<close>, \<^verbatim>\<open>minRTT\<close> and \<^verbatim>\<open>baseRTT\<close>; the algorithm is active, \<^verbatim>\<open>snd_nxt\<close> is 1000 and
  the measurement window began at 500.
\<close>

definition priv0 :: linux_priv where
  "priv0 = \<lparr>snd_cwnd_cnt = 0, max_packets_out = 0, is_cwnd_limited = True, icsk_ca_state = 0\<rparr>"

definition mk_sock ::
  "u32 \<Rightarrow> u32 \<Rightarrow> u32 \<Rightarrow> u32 \<Rightarrow> u32 \<Rightarrow> u32 \<Rightarrow> u16 \<Rightarrow> u32 \<Rightarrow> u32 \<Rightarrow> linux_priv sock" where
  "mk_sock cwnd ssthresh clamp lost saved inc cnt rtt base =
     \<lparr>tcp_sk = \<lparr>snd_cwnd = cwnd, snd_ssthresh = ssthresh, snd_cwnd_clamp = clamp,
                snd_nxt = 1000, lost_out = lost, host_priv = priv0\<rparr>,
      inet_csk_ca = \<lparr>beg_snd_nxt = 500, beg_snd_una = 0, beg_snd_cwnd = 0, lost_cwnd = saved,
                     reno_inc = inc, doing_qvegas_now = 1, cntRTT = cnt, minRTT = rtt,
                     baseRTT = base\<rparr>\<rparr>"

section \<open>Properties\<close>

subsection \<open>Word arithmetic used below\<close>

lemma sint_nonneg_uint:
  fixes r :: "32 word"
  assumes "0 \<le> sint r"
  shows "uint r = sint r \<and> sint r < 2 ^ 31"
proof -
  have b: "sint r < 2 ^ 31" using sint_lt [of r] by simp
  have "uint r = take_bit 32 (sint r)" using uint_sint [of r] by simp
  also have "\<dots> = sint r" using assms b by (simp add: take_bit_int_eq_self)
  finally show ?thesis using b by simp
qed

lemma vrtt_nonneg:
  fixes r :: "32 word"
  assumes "\<not> r <s 0"
  shows "unat (r + 1) = nat (sint r) + 1"
proof -
  have "0 \<le> sint r" using assms by (simp add: word_sless_alt)
  then have s: "uint r = sint r" and b: "sint r < 2 ^ 31"
    using sint_nonneg_uint [of r] by simp_all
  have u: "unat r = nat (sint r)" using s by (simp add: unat_eq_nat_uint)
  have "nat (sint r) < 2147483648" using b by simp
  then have "unat r + unat (1 :: 32 word) < 2 ^ LENGTH(32)" unfolding u by simp
  then have "unat (r + 1) = unat r + unat (1 :: 32 word)" by (simp only: unat_add_lem)
  also have "\<dots> = nat (sint r) + 1" unfolding u by simp
  finally show ?thesis .
qed

lemma helper_ret:
  "fst (tcp_qvegas_ssthresh sk) =
     max (min (snd_ssthresh (tcp_sk sk)) (snd_cwnd (tcp_sk sk) - 1)) 2"
  by (simp add: tcp_qvegas_ssthresh_def Let_def)

subsection \<open>The steps of the decision engine, field by field\<close>

lemma wipe_fields:
  "tcp_sk (qvegas_wipe s) = tcp_sk s"
  "lost_cwnd (inet_csk_ca (qvegas_wipe s)) = snd_cwnd (tcp_sk s)"
  "baseRTT (inet_csk_ca (qvegas_wipe s)) = baseRTT (inet_csk_ca s)"
  "minRTT (inet_csk_ca (qvegas_wipe s)) = 0x7fffffff"
  "cntRTT (inet_csk_ca (qvegas_wipe s)) = 0"
  by (simp_all add: qvegas_wipe_def)

lemma set_ssthresh_fields:
  "tcp_sk (qvegas_set_ssthresh H s) = (tcp_sk s)\<lparr>snd_ssthresh := tcp_current_ssthresh H (tcp_sk s)\<rparr>"
  "inet_csk_ca (qvegas_set_ssthresh H s) = inet_csk_ca s"
  by (simp_all add: qvegas_set_ssthresh_def)

lemma clamp_fields:
  "tcp_sk (qvegas_clamp s) =
     (tcp_sk s)\<lparr>snd_cwnd := (if snd_cwnd (tcp_sk s) < 4 then 4
                              else if snd_cwnd_clamp (tcp_sk s) < snd_cwnd (tcp_sk s)
                                   then snd_cwnd_clamp (tcp_sk s) else snd_cwnd (tcp_sk s))\<rparr>"
  "inet_csk_ca (qvegas_clamp s) = inet_csk_ca s"
  by (simp_all add: qvegas_clamp_def Let_def)

lemma open_window_fields:
  "tcp_sk (qvegas_open_window s) = (tcp_sk s)\<lparr>snd_cwnd := lost_cwnd (inet_csk_ca s)\<rparr>"
  "inet_csk_ca (qvegas_open_window s) = (inet_csk_ca s)\<lparr>beg_snd_nxt := snd_nxt (tcp_sk s)\<rparr>"
  by (simp_all add: qvegas_open_window_def Let_def)

lemma decide_Inr:
  assumes "baseRTT (inet_csk_ca s) \<noteq> 0" and "minRTT (inet_csk_ca s) \<noteq> 0"
  shows "qvegas_decide H P s acked =
     Inr (qvegas_set_ssthresh H (qvegas_clamp (qvegas_adjust H P s acked
       ((ucast (snd_cwnd (tcp_sk s)) * ucast (baseRTT (inet_csk_ca s))) div ucast (minRTT (inet_csk_ca s)))
       ((snd_cwnd (tcp_sk s) * (minRTT (inet_csk_ca s) - baseRTT (inet_csk_ca s))) div baseRTT (inet_csk_ca s)))))"
  using assms by (simp add: qvegas_decide_def qvegas_target_cwnd_def qvegas_diff_def Let_def)

lemma cong_avoid_delay:
  assumes "doing_qvegas_now (inet_csk_ca sk) \<noteq> 0"
    and "seq_after H ack (beg_snd_nxt (inet_csk_ca sk))"
    and "\<not> cntRTT (inet_csk_ca sk) \<le> 2"
    and "baseRTT (inet_csk_ca sk) \<noteq> 0" and "minRTT (inet_csk_ca sk) \<noteq> 0"
  shows "tcp_qvegas_cong_avoid H P sk ack acked =
     Inr (qvegas_wipe (qvegas_set_ssthresh H (qvegas_clamp (qvegas_adjust H P (qvegas_open_window sk) acked
       ((ucast (lost_cwnd (inet_csk_ca sk)) * ucast (baseRTT (inet_csk_ca sk))) div ucast (minRTT (inet_csk_ca sk)))
       ((lost_cwnd (inet_csk_ca sk) * (minRTT (inet_csk_ca sk) - baseRTT (inet_csk_ca sk))) div baseRTT (inet_csk_ca sk))))))"
proof -
  have d: "qvegas_decide H P (qvegas_open_window sk) acked = Inr (qvegas_set_ssthresh H (qvegas_clamp (qvegas_adjust H P (qvegas_open_window sk) acked
       ((ucast (lost_cwnd (inet_csk_ca sk)) * ucast (baseRTT (inet_csk_ca sk))) div ucast (minRTT (inet_csk_ca sk)))
       ((lost_cwnd (inet_csk_ca sk) * (minRTT (inet_csk_ca sk) - baseRTT (inet_csk_ca sk))) div baseRTT (inet_csk_ca sk)))))"
    using assms(4,5) decide_Inr [of "qvegas_open_window sk" H P acked]
    by (simp add: open_window_fields)
  show ?thesis
    using assms(1-3) by (simp add: tcp_qvegas_cong_avoid_def Let_def open_window_fields d)
qed

lemma diff_nat:
  fixes w rtt base :: u32
  assumes "base \<le> rtt"
    and "unat w * (unat rtt - unat base) < 2 ^ 32"
  shows "unat ((w * (rtt - base)) div base) = unat w * (unat rtt - unat base) div unat base"
proof -
  have s: "unat (rtt - base) = unat rtt - unat base"
    using assms(1) by (simp add: unat_sub)
  have "unat w * unat (rtt - base) < 2 ^ LENGTH(32)"
    using assms(2) unfolding s by simp
  then have "unat (w * (rtt - base)) = unat w * unat (rtt - base)"
    by (simp only: unat_mult_lem)
  then show ?thesis by (simp add: unat_div s)
qed

lemma unat_ucast_u32_u64:
  fixes w :: u32
  shows "unat (ucast w :: u64) = unat w"
proof -
  have "unat w < 2 ^ 32" using unsigned_less [of w] by simp
  then have "unat w < 2 ^ 64" by (rule less_trans) simp
  then show ?thesis by (simp add: unsigned_ucast_eq take_bit_nat_eq_self)
qed

lemma target_nat:
  fixes w rtt base :: u32
  shows "unat (((ucast w :: u64) * ucast base) div ucast rtt) = unat w * unat base div unat rtt"
proof -
  have a: "unat (ucast w :: u64) = unat w" "unat (ucast base :: u64) = unat base"
    "unat (ucast rtt :: u64) = unat rtt"
    by (simp_all only: unat_ucast_u32_u64)
  have "unat w < 2 ^ 32" "unat base < 2 ^ 32"
    using unsigned_less [of w] unsigned_less [of base] by simp_all
  then have "unat w * unat base < 2 ^ 32 * 2 ^ 32"
    by (rule mult_strict_mono') simp_all
  then have "unat (ucast w :: u64) * unat (ucast base :: u64) < 2 ^ LENGTH(64)"
    unfolding a by simp
  then have "unat ((ucast w :: u64) * ucast base) = unat w * unat base"
    unfolding a [symmetric] by (simp only: unat_mult_lem)
  then show ?thesis by (simp add: unat_div a)
qed


lemma adjust_exit_tp:
  assumes "gamma P < diff" and "tcp_in_slow_start H (tcp_sk s)"
  shows "tcp_sk (qvegas_adjust H P s acked T diff) =
     (tcp_sk s)\<lparr>snd_cwnd := min (snd_cwnd (tcp_sk s)) (ucast T + 1),
                snd_ssthresh := max (min (snd_ssthresh (tcp_sk s))
                                      (min (snd_cwnd (tcp_sk s)) (ucast T + 1) - 1)) 2\<rparr>"
  using assms by (simp add: qvegas_adjust_def tcp_qvegas_ssthresh_def Let_def)

lemma adjust_avoid_tp:
  assumes "\<not> tcp_in_slow_start H (tcp_sk s)"
  shows "tcp_sk (qvegas_adjust H P s acked T diff) =
     (if beta P < diff
      then (tcp_sk s)\<lparr>snd_cwnd := snd_cwnd (tcp_sk s) - 1,
                      snd_ssthresh := max (min (snd_ssthresh (tcp_sk s)) (snd_cwnd (tcp_sk s) - 1 - 1)) 2\<rparr>
      else if diff < alpha P then (tcp_sk s)\<lparr>snd_cwnd := snd_cwnd (tcp_sk s) + 1\<rparr>
      else tcp_sk s)"
  using assms by (simp add: qvegas_adjust_def tcp_qvegas_ssthresh_def Let_def)

lemma adjust_clamp_kept:
  assumes "snd_cwnd_clamp (tcp_slow_start H (tcp_sk s) acked) = snd_cwnd_clamp (tcp_sk s)"
  shows "snd_cwnd_clamp (tcp_sk (qvegas_adjust H P s acked T diff)) = snd_cwnd_clamp (tcp_sk s)"
  using assms by (simp add: qvegas_adjust_def tcp_qvegas_ssthresh_def Let_def)

lemma upd_swap:
  "(tp :: 'h tcp_sock)\<lparr>snd_ssthresh := a, snd_cwnd := b\<rparr> = tp\<lparr>snd_cwnd := b, snd_ssthresh := a\<rparr>"
  by simp

lemma one_le_word_iff: "1 \<le> (x :: u32) \<longleftrightarrow> x \<noteq> 0"
  by (simp add: word_le_nat_alt unat_gt_0 Suc_le_eq)

lemma exit_window_nat:
  fixes w rtt base :: u32
  assumes "base \<le> rtt"
    and "0 < unat w * (unat rtt - unat base) div unat base"
  shows "unat (ucast (((ucast w :: u64) * ucast base) div ucast rtt) + 1 :: u32)
           = unat w * unat base div unat rtt + 1
         \<and> unat w * unat base div unat rtt + 1 \<le> unat w"
proof -
  define T :: u64 where "T = ((ucast w :: u64) * ucast base) div ucast rtt"
  have Tn: "unat T = unat w * unat base div unat rtt"
    unfolding T_def by (rule target_nat)
  have p: "0 < unat w * (unat rtt - unat base)"
    using assms(2) by (auto intro: ccontr)
  then have wpos: "0 < unat w" and lt: "unat base < unat rtt" by auto
  have "unat w * unat base < unat w * unat rtt"
    using wpos lt by simp
  then have "unat w * unat base div unat rtt < unat w"
    using lt by (simp add: div_less_iff_less_mult mult.commute)
  then have le: "unat T + 1 \<le> unat w" unfolding Tn by simp
  have wb: "unat w < 2 ^ 32" using unsigned_less [of w] by simp
  have Tb: "unat T < 2 ^ 32" using le wb by simp
  have c: "unat (ucast T :: u32) = unat T"
    using Tb by (simp add: unsigned_ucast_eq take_bit_nat_eq_self)
  have "unat (ucast T :: u32) + unat (1 :: u32) < 2 ^ LENGTH(32)"
    unfolding c using le wb by simp
  then have "unat (ucast T + 1 :: u32) = unat (ucast T :: u32) + unat (1 :: u32)"
    by (simp only: unat_add_lem)
  then have "unat (ucast T + 1 :: u32) = unat T + 1" unfolding c by simp
  then have "unat (ucast T + 1 :: u32) = unat w * unat base div unat rtt + 1
      \<and> unat w * unat base div unat rtt + 1 \<le> unat w"
    using le unfolding Tn by simp
  then show ?thesis unfolding T_def .
qed

lemma unat_min: "unat (min (a :: u32) b) = min (unat a) (unat b)"
  by (simp add: min_def word_le_nat_alt)


lemma helper_le_window:
  fixes t w :: u32
  assumes "3 \<le> w"
  shows "unat (max (min t (w - 1)) 2) \<le> unat w - 1"
  using assms by (simp add: max_def min_def) unat_arith

lemma adjust_ca:
  "(inet_csk_ca (qvegas_adjust H P s acked T diff))\<lparr>lost_cwnd := x\<rparr>
     = (inet_csk_ca s)\<lparr>lost_cwnd := x\<rparr>"
  by (simp add: qvegas_adjust_def tcp_qvegas_ssthresh_def Let_def)

lemma wipe_ca:
  "inet_csk_ca (qvegas_wipe s) =
     (inet_csk_ca s)\<lparr>lost_cwnd := snd_cwnd (tcp_sk s)\<rparr>\<lparr>cntRTT := 0, minRTT := 0x7fffffff\<rparr>"
  by (simp add: qvegas_wipe_def)

subsection \<open>Unfolding the model on concrete inputs\<close>

lemmas engine_defs =
  tcp_qvegas_cong_avoid_def qvegas_open_window_def qvegas_decide_def qvegas_target_cwnd_def
  qvegas_diff_def qvegas_adjust_def tcp_qvegas_ssthresh_def qvegas_clamp_def
  qvegas_set_ssthresh_def qvegas_wipe_def qvegas_reno_def Let_def

lemmas linux_defs =
  linux_host_def linux_after_def linux_in_slow_start_def linux_slow_start_def
  linux_slow_start_ret_def linux_cong_avoid_ai_def linux_is_cwnd_limited_def
  linux_reno_cong_avoid_def linux_current_ssthresh_def priv0_def mk_sock_def
  default_tunables_def word_sless_alt

subsection \<open>The threshold helper\<close>

text \<open>
  Claim C1 says that with packets marked lost the helper saves
  \<open>max (window - reno_inc / 2) 2\<close>. The code computes \<open>(window - reno_inc) >> 1\<close>
  instead, because the subtraction binds tighter than the shift. With a window of 20,
  an accumulated fallback increment of 4 and one lost packet, the helper saves 8, where
  the claim's formula gives 18.
\<close>

theorem C1_helper_shifts_the_difference:
  "lost_cwnd (inet_csk_ca (snd (tcp_qvegas_ssthresh (mk_sock 20 100 1000 1 20 4 3 15000 10000)))) = 8
   \<and> max ((20 :: u32) - drop_bit 1 4) 2 = 18"
  by (simp add: tcp_qvegas_ssthresh_def mk_sock_def)

text \<open>
  Claim C6, as the code has it: the helper returns
  \<open>max (min threshold (window - 1)) 2\<close> in \<^verbatim>\<open>u32\<close> arithmetic. The result is at least 2;
  it is at most \<open>window - 1\<close> when the window is at least 3; it is 2 when the window is 1
  or 2; with a window of 0 the subtraction wraps and the result is \<open>max threshold 2\<close>;
  and it does not exceed the previous threshold when that threshold is at least 2.
\<close>

theorem C6_threshold_helper_result:
  "fst (tcp_qvegas_ssthresh sk) =
     max (min (snd_ssthresh (tcp_sk sk)) (snd_cwnd (tcp_sk sk) - 1)) 2
   \<and> 2 \<le> fst (tcp_qvegas_ssthresh sk)
   \<and> (3 \<le> snd_cwnd (tcp_sk sk) \<longrightarrow>
        unat (fst (tcp_qvegas_ssthresh sk)) \<le> unat (snd_cwnd (tcp_sk sk)) - 1)
   \<and> (snd_cwnd (tcp_sk sk) = 1 \<or> snd_cwnd (tcp_sk sk) = 2 \<longrightarrow>
        fst (tcp_qvegas_ssthresh sk) = 2)
   \<and> (snd_cwnd (tcp_sk sk) = 0 \<longrightarrow>
        fst (tcp_qvegas_ssthresh sk) = max (snd_ssthresh (tcp_sk sk)) 2)
   \<and> (2 \<le> snd_ssthresh (tcp_sk sk) \<longrightarrow>
        fst (tcp_qvegas_ssthresh sk) \<le> snd_ssthresh (tcp_sk sk))"
proof -
  define w where "w = snd_cwnd (tcp_sk sk)"
  define t where "t = snd_ssthresh (tcp_sk sk)"
  have r: "fst (tcp_qvegas_ssthresh sk) = max (min t (w - 1)) 2"
    by (simp add: helper_ret w_def t_def)
  have a: "2 \<le> max (min t (w - 1)) 2" by simp
  have b: "unat (max (min t (w - 1)) 2) \<le> unat w - 1" if "3 \<le> w"
    using that by (simp add: max_def min_def) unat_arith
  have c: "max (min t (w - 1)) 2 = 2" if "w = 1 \<or> w = 2"
    using that by (auto simp: max_def min_def word_le_nat_alt)
  have d: "max (min t (w - 1)) 2 = max t 2" if "w = 0"
    using that by (simp add: min_def)
  have e: "max (min t (w - 1)) 2 \<le> t" if "2 \<le> t"
    using that by (auto simp: max_def min_def)
  show ?thesis using a b c d e unfolding r w_def [symmetric] t_def [symmetric] by blast
qed

theorem C6_threshold_helper_result_witness:
  "(3 :: u32) \<le> 20 \<and> (2 :: u32) \<le> 10
   \<and> unat (fst (tcp_qvegas_ssthresh (mk_sock 20 10 1000 0 20 0 3 15000 10000))) \<le> 19
   \<and> fst (tcp_qvegas_ssthresh (mk_sock 20 10 1000 0 20 0 3 15000 10000)) \<le> 10
   \<and> fst (tcp_qvegas_ssthresh (mk_sock 2 10 1000 0 20 0 3 15000 10000)) = 2
   \<and> fst (tcp_qvegas_ssthresh (mk_sock 0 10 1000 0 20 0 3 15000 10000)) = 10"
  using C6_threshold_helper_result [of "mk_sock 20 10 1000 0 20 0 3 15000 10000"]
        C6_threshold_helper_result [of "mk_sock 2 10 1000 0 20 0 3 15000 10000"]
        C6_threshold_helper_result [of "mk_sock 0 10 1000 0 20 0 3 15000 10000"]
  by (simp add: mk_sock_def)

text \<open>
  Claim C6 as stated fails at three inputs: with a window of 2 the result 2 exceeds
  \<open>window - 1 = 1\<close>; with a window of 0 and a threshold of 10 the result is 10, not 2;
  with a threshold of 1 the result 2 exceeds the previous threshold.
\<close>

theorem C6_counterexample:
  "\<not> (fst (tcp_qvegas_ssthresh (mk_sock 2 10 1000 0 2 0 3 15000 10000)) \<le> 2 - 1)
   \<and> fst (tcp_qvegas_ssthresh (mk_sock 0 10 1000 0 2 0 3 15000 10000)) \<noteq> 2
   \<and> \<not> (fst (tcp_qvegas_ssthresh (mk_sock 5 1 1000 0 2 0 3 15000 10000)) \<le> 1)"
  by (simp add: tcp_qvegas_ssthresh_def mk_sock_def word_le_nat_alt)

subsection \<open>The RTT sampler\<close>

lemma cnt_step:
  fixes c :: u16
  shows "unat (c + 1) = (unat c + 1) mod 65536"
    and "c < 0xffff \<Longrightarrow> unat (c + 1) = unat c + 1"
    and "c = 0xffff \<Longrightarrow> c + 1 = 0"
proof -
  show m: "unat (c + 1) = (unat c + 1) mod 65536"
    by (simp add: unat_word_ariths)
  show "unat (c + 1) = unat c + 1" if "c < 0xffff"
  proof -
    have "unat c < 65535" using that by (simp add: word_less_nat_alt)
    then show ?thesis unfolding m by simp
  qed
  show "c + 1 = 0" if "c = 0xffff" using that by simp
qed

lemma acked_cnt:
  "\<not> rtt_us <s 0 \<Longrightarrow>
     cntRTT (inet_csk_ca (tcp_qvegas_pkts_acked sk rtt_us)) = cntRTT (inet_csk_ca sk) + 1"
  by (simp add: tcp_qvegas_pkts_acked_def Let_def)

text \<open>
  Claim C7, as the code has it: a negative sample changes nothing. Any other sample is
  taken as \<open>vrtt = rtt_us + 1\<close>, which is the raw value plus one without wrap-around and
  so at least 1; \<^verbatim>\<open>baseRTT\<close> and \<^verbatim>\<open>minRTT\<close> become their minimum with \<open>vrtt\<close>; \<^verbatim>\<open>cntRTT\<close>,
  a \<^verbatim>\<open>u16\<close>, is incremented modulo 65536, that is by exactly 1 while it is below 65535
  and from 65535 to 0; and no other field of the private area and nothing of the
  transport state (window, threshold) changes.
\<close>

theorem C7_sampler:
  "tcp_qvegas_pkts_acked sk rtt_us =
     (if rtt_us <s 0 then sk
      else sk\<lparr>inet_csk_ca := (inet_csk_ca sk)
             \<lparr>baseRTT := min (baseRTT (inet_csk_ca sk)) (vrtt_of rtt_us),
              minRTT := min (minRTT (inet_csk_ca sk)) (vrtt_of rtt_us),
              cntRTT := cntRTT (inet_csk_ca sk) + 1\<rparr>\<rparr>)
   \<and> (\<not> rtt_us <s 0 \<longrightarrow>
        unat (vrtt_of rtt_us) = nat (sint rtt_us) + 1 \<and> 1 \<le> vrtt_of rtt_us)
   \<and> tcp_sk (tcp_qvegas_pkts_acked sk rtt_us) = tcp_sk sk
   \<and> (\<not> rtt_us <s 0 \<longrightarrow>
        unat (cntRTT (inet_csk_ca (tcp_qvegas_pkts_acked sk rtt_us)))
          = (unat (cntRTT (inet_csk_ca sk)) + 1) mod 65536
        \<and> (cntRTT (inet_csk_ca sk) < 0xffff \<longrightarrow>
             unat (cntRTT (inet_csk_ca (tcp_qvegas_pkts_acked sk rtt_us)))
               = unat (cntRTT (inet_csk_ca sk)) + 1)
        \<and> (cntRTT (inet_csk_ca sk) = 0xffff \<longrightarrow>
             cntRTT (inet_csk_ca (tcp_qvegas_pkts_acked sk rtt_us)) = 0))"
proof (intro conjI impI)
  show "tcp_qvegas_pkts_acked sk rtt_us =
     (if rtt_us <s 0 then sk
      else sk\<lparr>inet_csk_ca := (inet_csk_ca sk)
             \<lparr>baseRTT := min (baseRTT (inet_csk_ca sk)) (vrtt_of rtt_us),
              minRTT := min (minRTT (inet_csk_ca sk)) (vrtt_of rtt_us),
              cntRTT := cntRTT (inet_csk_ca sk) + 1\<rparr>\<rparr>)"
    by (auto simp: tcp_qvegas_pkts_acked_def Let_def min_def)
next
  assume "\<not> rtt_us <s 0"
  then show u: "unat (vrtt_of rtt_us) = nat (sint rtt_us) + 1"
    unfolding vrtt_of_def by (rule vrtt_nonneg)
  then have "unat (vrtt_of rtt_us) \<noteq> 0" by simp
  then show "1 \<le> vrtt_of rtt_us" by (simp add: word_le_nat_alt)
next
  show "tcp_sk (tcp_qvegas_pkts_acked sk rtt_us) = tcp_sk sk"
    by (simp add: tcp_qvegas_pkts_acked_def Let_def)
next
  assume v: "\<not> rtt_us <s 0"
  show "unat (cntRTT (inet_csk_ca (tcp_qvegas_pkts_acked sk rtt_us)))
          = (unat (cntRTT (inet_csk_ca sk)) + 1) mod 65536"
    unfolding acked_cnt [OF v] by (rule cnt_step(1))
next
  assume v: "\<not> rtt_us <s 0" and c: "cntRTT (inet_csk_ca sk) < 0xffff"
  show "unat (cntRTT (inet_csk_ca (tcp_qvegas_pkts_acked sk rtt_us)))
          = unat (cntRTT (inet_csk_ca sk)) + 1"
    unfolding acked_cnt [OF v] using c by (rule cnt_step(2))
next
  assume v: "\<not> rtt_us <s 0" and c: "cntRTT (inet_csk_ca sk) = 0xffff"
  show "cntRTT (inet_csk_ca (tcp_qvegas_pkts_acked sk rtt_us)) = 0"
    unfolding acked_cnt [OF v] using c by (rule cnt_step(3))
qed

theorem C7_sampler_witness:
  "\<not> (0 :: 32 word) <s 0 \<and> (- 1 :: 32 word) <s 0
   \<and> tcp_qvegas_pkts_acked (mk_sock 20 10 1000 0 20 0 5 15000 10000) (- 1)
       = mk_sock 20 10 1000 0 20 0 5 15000 10000
   \<and> tcp_qvegas_pkts_acked (mk_sock 20 10 1000 0 20 0 5 15000 10000) 0
       = mk_sock 20 10 1000 0 20 0 6 1 1
   \<and> unat (vrtt_of 0) = 1
   \<and> cntRTT (inet_csk_ca (mk_sock 20 10 1000 0 20 0 5 15000 10000)) < 0xffff
   \<and> unat (cntRTT (inet_csk_ca
         (tcp_qvegas_pkts_acked (mk_sock 20 10 1000 0 20 0 5 15000 10000) 0))) = 6
   \<and> cntRTT (inet_csk_ca (mk_sock 20 10 1000 0 20 0 65535 15000 10000)) = 0xffff
   \<and> cntRTT (inet_csk_ca
         (tcp_qvegas_pkts_acked (mk_sock 20 10 1000 0 20 0 65535 15000 10000) 0)) = 0"
  using C7_sampler [of "mk_sock 20 10 1000 0 20 0 5 15000 10000" "- 1"]
        C7_sampler [of "mk_sock 20 10 1000 0 20 0 5 15000 10000" 0]
        C7_sampler [of "mk_sock 20 10 1000 0 20 0 65535 15000 10000" 0]
  by (simp add: mk_sock_def word_sless_alt vrtt_of_def)

text \<open>
  Claim C7 as stated fails where the count is at its maximum: with \<^verbatim>\<open>cntRTT\<close> 65535 a
  valid sample leaves \<^verbatim>\<open>cntRTT\<close> 0, which is not the count plus one.
\<close>

theorem C7_counterexample:
  "\<not> (0 :: 32 word) <s 0
   \<and> cntRTT (inet_csk_ca (mk_sock 20 10 1000 0 20 0 65535 15000 10000)) = 65535
   \<and> cntRTT (inet_csk_ca
         (tcp_qvegas_pkts_acked (mk_sock 20 10 1000 0 20 0 65535 15000 10000) 0)) = 0
   \<and> unat (cntRTT (inet_csk_ca
         (tcp_qvegas_pkts_acked (mk_sock 20 10 1000 0 20 0 65535 15000 10000) 0)))
        \<noteq> unat (cntRTT (inet_csk_ca (mk_sock 20 10 1000 0 20 0 65535 15000 10000))) + 1"
  by (simp add: tcp_qvegas_pkts_acked_def mk_sock_def word_sless_alt vrtt_of_def Let_def)

subsection \<open>The mode controller\<close>

text \<open>
  Claim C5, as the code has it: on \<^verbatim>\<open>TCP_CA_Open\<close> the state hook calls
  \<^verbatim>\<open>qvegas_enable\<close>, not the full reset \<^verbatim>\<open>tcp_qvegas_init\<close>: it marks the algorithm
  active, opens a fresh measurement window and sets the transport window to
  \<open>max lost_cwnd 2\<close>, and it leaves \<^verbatim>\<open>baseRTT\<close> and \<^verbatim>\<open>lost_cwnd\<close> as they are. On any other
  state it only clears \<^verbatim>\<open>doing_qvegas_now\<close>.
\<close>

theorem C5_state_reaction_enables_only:
  "tcp_qvegas_state H sk ca_state =
     (if ca_state = TCP_CA_Open H
      then (qvegas_enable sk)\<lparr>tcp_sk := (tcp_sk sk)\<lparr>snd_cwnd := max (lost_cwnd (inet_csk_ca sk)) 2\<rparr>\<rparr>
      else qvegas_disable sk)
   \<and> baseRTT (inet_csk_ca (tcp_qvegas_state H sk ca_state)) = baseRTT (inet_csk_ca sk)
   \<and> lost_cwnd (inet_csk_ca (tcp_qvegas_state H sk ca_state)) = lost_cwnd (inet_csk_ca sk)
   \<and> (ca_state = TCP_CA_Open H \<longrightarrow>
        snd_cwnd (tcp_sk (tcp_qvegas_state H sk ca_state)) = max (lost_cwnd (inet_csk_ca sk)) 2
        \<and> inet_csk_ca (tcp_qvegas_state H sk ca_state) =
            (inet_csk_ca sk)\<lparr>doing_qvegas_now := 1, beg_snd_nxt := snd_nxt (tcp_sk sk),
                              cntRTT := 0, reno_inc := 0, minRTT := 0x7fffffff\<rparr>)
   \<and> (ca_state \<noteq> TCP_CA_Open H \<longrightarrow>
        tcp_qvegas_state H sk ca_state =
          sk\<lparr>inet_csk_ca := (inet_csk_ca sk)\<lparr>doing_qvegas_now := 0\<rparr>\<rparr>)"
  by (simp add: tcp_qvegas_state_def qvegas_enable_def qvegas_disable_def Let_def)

theorem C5_state_reaction_enables_only_witness:
  "(0 :: u8) = TCP_CA_Open linux_host \<and> (3 :: u8) \<noteq> TCP_CA_Open linux_host
   \<and> outcome (Inr (tcp_qvegas_state linux_host (mk_sock 1 10 1000 0 20 7 5 15000 10000) 0))
       = Inr (20, 10, 20)
   \<and> baseRTT (inet_csk_ca (tcp_qvegas_state linux_host (mk_sock 1 10 1000 0 20 7 5 15000 10000) 0)) = 10000
   \<and> tcp_qvegas_state linux_host (mk_sock 1 10 1000 0 20 7 5 15000 10000) 3
       = (mk_sock 1 10 1000 0 20 7 5 15000 10000)
           \<lparr>inet_csk_ca := (inet_csk_ca (mk_sock 1 10 1000 0 20 7 5 15000 10000))\<lparr>doing_qvegas_now := 0\<rparr>\<rparr>"
  using C5_state_reaction_enables_only
          [where ca_state = 0 and H = linux_host and sk = "mk_sock 1 10 1000 0 20 7 5 15000 10000"]
        C5_state_reaction_enables_only
          [where ca_state = 3 and H = linux_host and sk = "mk_sock 1 10 1000 0 20 7 5 15000 10000"]
  by (auto simp: linux_host_def mk_sock_def outcome_def)

text \<open>
  Claim C5 as stated fails: after samples have set \<^verbatim>\<open>baseRTT\<close> to 10000 the hook leaves
  it at 10000, where the full reset of the claim sets the unset sentinel; and on a socket
  whose private area was never initialised the hook leaves the window at 2, where the
  full reset would first install the initial window 10.
\<close>

theorem C5_counterexample:
  "baseRTT (inet_csk_ca (tcp_qvegas_state linux_host (mk_sock 1 10 1000 0 20 7 5 15000 10000) 0)) = 10000
   \<and> baseRTT (inet_csk_ca (spec_state_reaction linux_host (mk_sock 1 10 1000 0 20 7 5 15000 10000) 0)) = 0x7fffffff
   \<and> snd_cwnd (tcp_sk (tcp_qvegas_state linux_host (mk_sock 1 10 1000 0 0 0 0 0 0) 0)) = 2
   \<and> snd_cwnd (tcp_sk (spec_state_reaction linux_host (mk_sock 1 10 1000 0 0 0 0 0 0) 0)) = 10
   \<and> tcp_qvegas_state linux_host (mk_sock 1 10 1000 0 20 7 5 15000 10000) 0
       \<noteq> spec_state_reaction linux_host (mk_sock 1 10 1000 0 20 7 5 15000 10000) 0"
  by (simp add: tcp_qvegas_state_def spec_state_reaction_def tcp_qvegas_init_def
      qvegas_enable_def linux_host_def mk_sock_def Let_def)

subsection \<open>The decision engine\<close>



text \<open>
  Claim C2, as the code has it: after a delay-based decision (more than two samples,
  nonzero RTT minima) the call returns, and when the clamp ceiling is at least 4 the
  window written back lies between 4 and the ceiling, whatever branch was taken. The
  ceiling is the one of the state the call leaves; it is the one of the state the call
  was given when the host's slow start does not touch it.
\<close>

theorem C2_window_bounds_after_delay_decision:
  assumes "doing_qvegas_now (inet_csk_ca sk) \<noteq> 0"
    and "seq_after H ack (beg_snd_nxt (inet_csk_ca sk))"
    and "2 < cntRTT (inet_csk_ca sk)"
    and "1 \<le> baseRTT (inet_csk_ca sk)" and "1 \<le> minRTT (inet_csk_ca sk)"
  shows "\<exists>sk'. tcp_qvegas_cong_avoid H P sk ack acked = Inr sk'
     \<and> (4 \<le> snd_cwnd_clamp (tcp_sk sk') \<longrightarrow>
          4 \<le> snd_cwnd (tcp_sk sk') \<and> snd_cwnd (tcp_sk sk') \<le> snd_cwnd_clamp (tcp_sk sk'))
     \<and> (snd_cwnd_clamp (tcp_slow_start H ((tcp_sk sk)\<lparr>snd_cwnd := lost_cwnd (inet_csk_ca sk)\<rparr>) acked)
            = snd_cwnd_clamp (tcp_sk sk) \<longrightarrow>
          snd_cwnd_clamp (tcp_sk sk') = snd_cwnd_clamp (tcp_sk sk))"
proof -
  define T :: u64 where "T = (ucast (lost_cwnd (inet_csk_ca sk)) * ucast (baseRTT (inet_csk_ca sk))) div ucast (minRTT (inet_csk_ca sk))"
  define D where "D = (lost_cwnd (inet_csk_ca sk) * (minRTT (inet_csk_ca sk) - baseRTT (inet_csk_ca sk))) div baseRTT (inet_csk_ca sk)"
  define A where "A = qvegas_adjust H P (qvegas_open_window sk) acked T D"
  have nz: "baseRTT (inet_csk_ca sk) \<noteq> 0" "minRTT (inet_csk_ca sk) \<noteq> 0"
    using assms(4,5) by (simp_all add: one_le_word_iff)
  have cnt: "\<not> cntRTT (inet_csk_ca sk) \<le> 2" using assms(3) by simp
  have e: "tcp_qvegas_cong_avoid H P sk ack acked =
      Inr (qvegas_wipe (qvegas_set_ssthresh H (qvegas_clamp A)))"
    unfolding A_def T_def D_def
    by (rule cong_avoid_delay [OF assms(1) assms(2) cnt nz])
  have b: "4 \<le> snd_cwnd_clamp (tcp_sk (qvegas_clamp A)) \<longrightarrow>
          4 \<le> snd_cwnd (tcp_sk (qvegas_clamp A)) \<and> snd_cwnd (tcp_sk (qvegas_clamp A)) \<le> snd_cwnd_clamp (tcp_sk (qvegas_clamp A))"
    by (auto simp: clamp_fields)
  have k: "snd_cwnd_clamp (tcp_sk (qvegas_clamp A)) = snd_cwnd_clamp (tcp_sk sk)"
    if "snd_cwnd_clamp (tcp_slow_start H ((tcp_sk sk)\<lparr>snd_cwnd := lost_cwnd (inet_csk_ca sk)\<rparr>) acked)
            = snd_cwnd_clamp (tcp_sk sk)"
    using that adjust_clamp_kept [where H = H and s = "qvegas_open_window sk" and acked = acked
        and P = P and T = T and diff = D]
    by (simp add: clamp_fields A_def open_window_fields)
  show ?thesis
    using b k unfolding e by (simp add: wipe_fields set_ssthresh_fields)
qed

theorem C2_window_bounds_after_delay_decision_witness:
  "doing_qvegas_now (inet_csk_ca (mk_sock 20 10 1000 0 20 0 5 15000 10000)) \<noteq> 0
   \<and> seq_after linux_host 600 (beg_snd_nxt (inet_csk_ca (mk_sock 20 10 1000 0 20 0 5 15000 10000)))
   \<and> 2 < cntRTT (inet_csk_ca (mk_sock 20 10 1000 0 20 0 5 15000 10000))
   \<and> 1 \<le> baseRTT (inet_csk_ca (mk_sock 20 10 1000 0 20 0 5 15000 10000))
   \<and> 1 \<le> minRTT (inet_csk_ca (mk_sock 20 10 1000 0 20 0 5 15000 10000))
   \<and> (\<exists>sk'. tcp_qvegas_cong_avoid linux_host default_tunables
                (mk_sock 20 10 1000 0 20 0 5 15000 10000) 600 1 = Inr sk'
          \<and> snd_cwnd_clamp (tcp_sk sk') = 1000
          \<and> 4 \<le> snd_cwnd (tcp_sk sk') \<and> snd_cwnd (tcp_sk sk') \<le> 1000)"
proof -
  have h1: "doing_qvegas_now (inet_csk_ca (mk_sock 20 10 1000 0 20 0 5 15000 10000)) \<noteq> 0"
    by (simp add: mk_sock_def)
  have h2: "seq_after linux_host 600 (beg_snd_nxt (inet_csk_ca (mk_sock 20 10 1000 0 20 0 5 15000 10000)))"
    by (simp add: linux_defs)
  have h3: "2 < cntRTT (inet_csk_ca (mk_sock 20 10 1000 0 20 0 5 15000 10000))"
    by (simp add: mk_sock_def)
  have h4: "1 \<le> baseRTT (inet_csk_ca (mk_sock 20 10 1000 0 20 0 5 15000 10000))"
    by (simp add: mk_sock_def one_le_word_iff)
  have h5: "1 \<le> minRTT (inet_csk_ca (mk_sock 20 10 1000 0 20 0 5 15000 10000))"
    by (simp add: mk_sock_def one_le_word_iff)
  have k: "snd_cwnd_clamp (tcp_slow_start linux_host
        ((tcp_sk (mk_sock 20 10 1000 0 20 0 5 15000 10000))
           \<lparr>snd_cwnd := lost_cwnd (inet_csk_ca (mk_sock 20 10 1000 0 20 0 5 15000 10000))\<rparr>) 1)
      = snd_cwnd_clamp (tcp_sk (mk_sock 20 10 1000 0 20 0 5 15000 10000))"
    by (simp add: linux_defs)
  have c: "snd_cwnd_clamp (tcp_sk (mk_sock 20 10 1000 0 20 0 5 15000 10000)) = 1000"
    by (simp add: mk_sock_def)
  from C2_window_bounds_after_delay_decision [OF h1 h2 h3 h4 h5, of default_tunables 1]
  obtain sk' where e: "tcp_qvegas_cong_avoid linux_host default_tunables
                (mk_sock 20 10 1000 0 20 0 5 15000 10000) 600 1 = Inr sk'"
    and b: "4 \<le> snd_cwnd_clamp (tcp_sk sk') \<longrightarrow>
          4 \<le> snd_cwnd (tcp_sk sk') \<and> snd_cwnd (tcp_sk sk') \<le> snd_cwnd_clamp (tcp_sk sk')"
    and kk: "snd_cwnd_clamp (tcp_sk sk') = snd_cwnd_clamp (tcp_sk (mk_sock 20 10 1000 0 20 0 5 15000 10000))"
    using k by blast
  have "snd_cwnd_clamp (tcp_sk sk') = 1000" using kk c by simp
  then show ?thesis using h1 h2 h3 h4 h5 e b by simp
qed

text \<open>
  Claim C2 as stated fails in the fallback branch, which applies no bound: right after
  the full reset of a connection whose clamp ceiling is 5, the first RTT boundary has no
  sample, the sender is not window-limited, and the window written back is the initial
  10, above the ceiling. It also fails in the delay-based branch when the ceiling is below
  4: with a ceiling of 3 the window written back is 3.
\<close>

theorem C2_counterexample:
  "seq_after linux_host 2000
     (beg_snd_nxt (inet_csk_ca (tcp_qvegas_init linux_host (mk_sock 10 0x7fffffff 5 0 0 0 0 0 0))))
   \<and> outcome (tcp_qvegas_cong_avoid linux_host default_tunables
         (tcp_qvegas_init linux_host (mk_sock 10 0x7fffffff 5 0 0 0 0 0 0)) 2000 1)
       = Inr (10, 0x7fffffff, 10)
   \<and> \<not> (10 :: u32) \<le> 5
   \<and> seq_after linux_host 600 (beg_snd_nxt (inet_csk_ca (mk_sock 20 10 3 0 20 0 5 15000 10000)))
   \<and> outcome (tcp_qvegas_cong_avoid linux_host default_tunables
         (mk_sock 20 10 3 0 20 0 5 15000 10000) 600 1) = Inr (3, 10, 3)
   \<and> \<not> (4 :: u32) \<le> 3"
  by (simp add: engine_defs linux_defs outcome_def tcp_qvegas_init_def qvegas_enable_def)

text \<open>
  Claim C3, as the code has it: in slow start with \<open>diff > gamma\<close> (no overflow in the
  product of \<open>diff\<close>, \<open>gamma\<close> read as unsigned) the engine assigns
  \<open>w1 = min window (target_cwnd + 1)\<close>, where \<open>target_cwnd = window * baseRTT div minRTT\<close>
  is computed in 64 bits; the helper returns \<open>t1 = max (min threshold (w1 - 1)) 2\<close>, which
  is at most \<open>w1 - 1\<close> when \<open>w1\<close> is at least 3. The window then written is \<open>w1\<close> after
  the floor of 4 and the clamp ceiling, and the threshold then written is what the host's
  \<^verbatim>\<open>tcp_current_ssthresh\<close> returns on the state holding that window and \<open>t1\<close>.
\<close>

theorem C3_slow_start_exit:
  assumes "doing_qvegas_now (inet_csk_ca sk) \<noteq> 0"
    and "seq_after H ack (beg_snd_nxt (inet_csk_ca sk))"
    and "2 < cntRTT (inet_csk_ca sk)"
    and "1 \<le> baseRTT (inet_csk_ca sk)"
    and "baseRTT (inet_csk_ca sk) \<le> minRTT (inet_csk_ca sk)"
    and "unat (lost_cwnd (inet_csk_ca sk))
           * (unat (minRTT (inet_csk_ca sk)) - unat (baseRTT (inet_csk_ca sk))) < 2 ^ 32"
    and "tcp_in_slow_start H ((tcp_sk sk)\<lparr>snd_cwnd := lost_cwnd (inet_csk_ca sk)\<rparr>)"
    and "unat (gamma P) < unat (lost_cwnd (inet_csk_ca sk))
           * (unat (minRTT (inet_csk_ca sk)) - unat (baseRTT (inet_csk_ca sk)))
           div unat (baseRTT (inet_csk_ca sk))"
  shows "\<exists>sk'. tcp_qvegas_cong_avoid H P sk ack acked = Inr sk' \<and>
     (let w = lost_cwnd (inet_csk_ca sk);
          target_cwnd = (ucast w * ucast (baseRTT (inet_csk_ca sk)) :: u64)
                          div ucast (minRTT (inet_csk_ca sk));
          w1 = min w (ucast target_cwnd + 1);
          t1 = max (min (snd_ssthresh (tcp_sk sk)) (w1 - 1)) 2;
          wf = (if w1 < 4 then 4
                else if snd_cwnd_clamp (tcp_sk sk) < w1 then snd_cwnd_clamp (tcp_sk sk) else w1)
      in unat target_cwnd
           = unat w * unat (baseRTT (inet_csk_ca sk)) div unat (minRTT (inet_csk_ca sk))
         \<and> unat w1 = min (unat w) (unat target_cwnd + 1)
         \<and> (3 \<le> w1 \<longrightarrow> unat t1 \<le> unat w1 - 1)
         \<and> tcp_sk sk' =
             (tcp_sk sk)\<lparr>snd_cwnd := wf,
                          snd_ssthresh := tcp_current_ssthresh H
                            ((tcp_sk sk)\<lparr>snd_cwnd := wf, snd_ssthresh := t1\<rparr>)\<rparr>
         \<and> lost_cwnd (inet_csk_ca sk') = wf)"
proof -
  define q where "q = inet_csk_ca sk"
  define w where "w = lost_cwnd q"
  define T :: u64 where "T = (ucast w * ucast (baseRTT q)) div ucast (minRTT q)"
  define D where "D = (w * (minRTT q - baseRTT q)) div baseRTT q"
  define d where "d = unat w * (unat (minRTT q) - unat (baseRTT q)) div unat (baseRTT q)"
  define A where "A = qvegas_adjust H P (qvegas_open_window sk) acked T D"
  have nz: "baseRTT q \<noteq> 0" "minRTT q \<noteq> 0"
    using assms(4,5) by (auto simp: one_le_word_iff q_def)
  have cnt: "\<not> cntRTT (inet_csk_ca sk) \<le> 2" using assms(3) by simp
  have e: "tcp_qvegas_cong_avoid H P sk ack acked =
      Inr (qvegas_wipe (qvegas_set_ssthresh H (qvegas_clamp A)))"
    unfolding A_def T_def D_def w_def q_def
    by (rule cong_avoid_delay [OF assms(1) assms(2) cnt nz [unfolded q_def]])
  have Dd: "unat D = d"
    unfolding D_def d_def using assms(5,6) by (simp add: diff_nat q_def w_def)
  have over: "unat (gamma P) < d" using assms(8) by (simp add: d_def w_def q_def)
  then have g: "gamma P < D" by (simp add: word_less_nat_alt Dd)
  have At: "tcp_sk A = (tcp_sk sk)\<lparr>snd_cwnd := min w (ucast T + 1),
                snd_ssthresh := max (min (snd_ssthresh (tcp_sk sk)) (min w (ucast T + 1) - 1)) 2\<rparr>"
    unfolding A_def
    using assms(7) g adjust_exit_tp [where H = H and s = "qvegas_open_window sk" and P = P
        and diff = D and acked = acked and T = T]
    by (simp add: open_window_fields w_def q_def)
  have Tn: "unat T = unat w * unat (baseRTT q) div unat (minRTT q)"
    unfolding T_def by (rule target_nat)
  have "0 < d" using over by simp
  then have "unat (ucast T + 1 :: u32) = unat w * unat (baseRTT q) div unat (minRTT q) + 1"
    using exit_window_nat [where w = w and rtt = "minRTT q" and base = "baseRTT q"] assms(5)
    unfolding d_def T_def q_def by simp
  then have "unat (ucast T + 1 :: u32) = unat T + 1"
    unfolding Tn .
  then have w1: "unat (min w (ucast T + 1)) = min (unat w) (unat T + 1)"
    by (simp add: unat_min)
  have h: "unat (max (min (snd_ssthresh (tcp_sk sk)) (min w (ucast T + 1) - 1)) 2)
            \<le> unat (min w (ucast T + 1)) - 1" if "3 \<le> min w (ucast T + 1)"
    using that by (rule helper_le_window)
  show ?thesis
    unfolding e
    apply (rule exI, rule conjI, rule refl)
    apply (simp only: Let_def q_def [symmetric] w_def [symmetric] T_def [symmetric])
    using Tn w1 h
    apply (auto simp: wipe_fields set_ssthresh_fields clamp_fields At upd_swap)
    done
qed

theorem C3_slow_start_exit_witness:
  "doing_qvegas_now (inet_csk_ca (mk_sock 10 100 1000 0 10 0 5 15000 10000)) \<noteq> 0
   \<and> seq_after linux_host 600 (beg_snd_nxt (inet_csk_ca (mk_sock 10 100 1000 0 10 0 5 15000 10000)))
   \<and> 2 < cntRTT (inet_csk_ca (mk_sock 10 100 1000 0 10 0 5 15000 10000))
   \<and> 1 \<le> baseRTT (inet_csk_ca (mk_sock 10 100 1000 0 10 0 5 15000 10000))
   \<and> baseRTT (inet_csk_ca (mk_sock 10 100 1000 0 10 0 5 15000 10000))
        \<le> minRTT (inet_csk_ca (mk_sock 10 100 1000 0 10 0 5 15000 10000))
   \<and> (10 :: nat) * (15000 - 10000) < 2 ^ 32
   \<and> tcp_in_slow_start linux_host
         ((tcp_sk (mk_sock 10 100 1000 0 10 0 5 15000 10000))\<lparr>snd_cwnd := 10\<rparr>)
   \<and> unat (gamma default_tunables) < 10 * (15000 - 10000) div 10000
   \<and> (3 :: u32) \<le> min 10 (6 + 1)
   \<and> outcome (tcp_qvegas_cong_avoid linux_host default_tunables
         (mk_sock 10 100 1000 0 10 0 5 15000 10000) 600 1) = Inr (7, 6, 7)"
proof -
  have h1: "doing_qvegas_now (inet_csk_ca (mk_sock 10 100 1000 0 10 0 5 15000 10000)) \<noteq> 0"
    by (simp add: mk_sock_def)
  have h2: "seq_after linux_host 600 (beg_snd_nxt (inet_csk_ca (mk_sock 10 100 1000 0 10 0 5 15000 10000)))"
    by (simp add: linux_defs)
  have h3: "2 < cntRTT (inet_csk_ca (mk_sock 10 100 1000 0 10 0 5 15000 10000))"
    by (simp add: mk_sock_def)
  have h4: "1 \<le> baseRTT (inet_csk_ca (mk_sock 10 100 1000 0 10 0 5 15000 10000))"
    by (simp add: mk_sock_def one_le_word_iff)
  have h5: "baseRTT (inet_csk_ca (mk_sock 10 100 1000 0 10 0 5 15000 10000))
        \<le> minRTT (inet_csk_ca (mk_sock 10 100 1000 0 10 0 5 15000 10000))"
    by (simp add: mk_sock_def)
  have h6: "unat (lost_cwnd (inet_csk_ca (mk_sock 10 100 1000 0 10 0 5 15000 10000)))
           * (unat (minRTT (inet_csk_ca (mk_sock 10 100 1000 0 10 0 5 15000 10000)))
              - unat (baseRTT (inet_csk_ca (mk_sock 10 100 1000 0 10 0 5 15000 10000)))) < 2 ^ 32"
    by (simp add: mk_sock_def)
  have h7: "tcp_in_slow_start linux_host
         ((tcp_sk (mk_sock 10 100 1000 0 10 0 5 15000 10000))
            \<lparr>snd_cwnd := lost_cwnd (inet_csk_ca (mk_sock 10 100 1000 0 10 0 5 15000 10000))\<rparr>)"
    by (simp add: linux_defs)
  have h8: "unat (gamma default_tunables)
      < unat (lost_cwnd (inet_csk_ca (mk_sock 10 100 1000 0 10 0 5 15000 10000)))
           * (unat (minRTT (inet_csk_ca (mk_sock 10 100 1000 0 10 0 5 15000 10000)))
              - unat (baseRTT (inet_csk_ca (mk_sock 10 100 1000 0 10 0 5 15000 10000))))
           div unat (baseRTT (inet_csk_ca (mk_sock 10 100 1000 0 10 0 5 15000 10000)))"
    by (simp add: mk_sock_def default_tunables_def)
  from C3_slow_start_exit [OF h1 h2 h3 h4 h5 h6 h7 h8, of 1]
  obtain sk' where e: "tcp_qvegas_cong_avoid linux_host default_tunables
         (mk_sock 10 100 1000 0 10 0 5 15000 10000) 600 1 = Inr sk'"
    and t: "tcp_sk sk' = (tcp_sk (mk_sock 10 100 1000 0 10 0 5 15000 10000))\<lparr>snd_cwnd := 7, snd_ssthresh := 6\<rparr>"
    and l: "lost_cwnd (inet_csk_ca sk') = 7"
    by (auto simp: Let_def linux_defs)
  show ?thesis
    using h1 h2 h3 h4 h5 h7 by (simp add: e t l outcome_def) (simp add: linux_defs)
qed

text \<open>
  Claim C3 as stated fails: in slow start with window 10, base RTT 10000 and window
  minimum 60000, \<open>diff\<close> is 50 and \<open>target_cwnd\<close> is 1, so the engine assigns
  \<open>min 10 (1 + 1) = 2\<close>; the helper returns 2, which is not at most \<open>2 - 1\<close>; and the
  cycle ends with window 4 (the floor) and threshold 3.
\<close>

theorem C3_counterexample:
  "tcp_in_slow_start linux_host (tcp_sk (qvegas_open_window (mk_sock 10 100 1000 0 10 0 5 60000 10000)))
   \<and> qvegas_diff (qvegas_open_window (mk_sock 10 100 1000 0 10 0 5 60000 10000)) = Inr 50
   \<and> qvegas_target_cwnd (qvegas_open_window (mk_sock 10 100 1000 0 10 0 5 60000 10000)) = Inr 1
   \<and> min (10 :: u32) (1 + 1) = 2
   \<and> fst (tcp_qvegas_ssthresh (mk_sock 2 100 1000 0 10 0 5 60000 10000)) = 2
   \<and> \<not> (2 :: u32) \<le> 2 - 1
   \<and> outcome (tcp_qvegas_cong_avoid linux_host default_tunables
         (mk_sock 10 100 1000 0 10 0 5 60000 10000) 600 1) = Inr (4, 3, 4)
   \<and> \<not> (3 :: u32) \<le> 2 - 1"
  by (simp add: engine_defs linux_defs outcome_def word_le_nat_alt)

text \<open>
  Claim C4, as the code has it: in the avoidance phase, with
  \<open>d = window * (minRTT - baseRTT) div baseRTT\<close> (no overflow in the product, \<open>alpha\<close> and
  \<open>beta\<close> read as unsigned), the engine takes \<open>w1 = window - 1\<close> and the helper's
  threshold if \<open>d > beta\<close>, \<open>w1 = window + 1\<close> if \<open>d < alpha\<close>, and \<open>w1 = window\<close>
  otherwise. The window then written is \<open>w1\<close> after the floor of 4 and the clamp
  ceiling. With \<^verbatim>\<open>baseRTT\<close> 10000, \<^verbatim>\<open>minRTT\<close> 15000, window 20, \<open>beta = 4\<close> and a ceiling of
  at least 19, \<open>d\<close> is 10 and the window becomes 19.
\<close>

theorem C4_avoidance_step:
  assumes "doing_qvegas_now (inet_csk_ca sk) \<noteq> 0"
    and "seq_after H ack (beg_snd_nxt (inet_csk_ca sk))"
    and "2 < cntRTT (inet_csk_ca sk)"
    and "1 \<le> baseRTT (inet_csk_ca sk)"
    and "baseRTT (inet_csk_ca sk) \<le> minRTT (inet_csk_ca sk)"
    and "unat (lost_cwnd (inet_csk_ca sk))
           * (unat (minRTT (inet_csk_ca sk)) - unat (baseRTT (inet_csk_ca sk))) < 2 ^ 32"
    and "\<not> tcp_in_slow_start H ((tcp_sk sk)\<lparr>snd_cwnd := lost_cwnd (inet_csk_ca sk)\<rparr>)"
  shows "\<exists>sk'. tcp_qvegas_cong_avoid H P sk ack acked = Inr sk' \<and>
     (let w = lost_cwnd (inet_csk_ca sk);
          d = unat w * (unat (minRTT (inet_csk_ca sk)) - unat (baseRTT (inet_csk_ca sk)))
                div unat (baseRTT (inet_csk_ca sk));
          w1 = (if unat (beta P) < d then w - 1 else if d < unat (alpha P) then w + 1 else w);
          t1 = (if unat (beta P) < d then max (min (snd_ssthresh (tcp_sk sk)) (w1 - 1)) 2
                else snd_ssthresh (tcp_sk sk));
          wf = (if w1 < 4 then 4
                else if snd_cwnd_clamp (tcp_sk sk) < w1 then snd_cwnd_clamp (tcp_sk sk) else w1)
      in tcp_sk sk' =
           (tcp_sk sk)\<lparr>snd_cwnd := wf,
                        snd_ssthresh := tcp_current_ssthresh H
                          ((tcp_sk sk)\<lparr>snd_cwnd := wf, snd_ssthresh := t1\<rparr>)\<rparr>
         \<and> lost_cwnd (inet_csk_ca sk') = wf
         \<and> (unat (beta P) < d \<longrightarrow> unat w1 = unat w - 1 \<and> 1 \<le> w)
         \<and> (baseRTT (inet_csk_ca sk) = 10000 \<and> minRTT (inet_csk_ca sk) = 15000 \<and> w = 20
              \<and> beta P = 4 \<and> 19 \<le> snd_cwnd_clamp (tcp_sk sk) \<longrightarrow>
              d = 10 \<and> snd_cwnd (tcp_sk sk') = 19))"
proof -
  define q where "q = inet_csk_ca sk"
  define w where "w = lost_cwnd q"
  define T :: u64 where "T = (ucast w * ucast (baseRTT q)) div ucast (minRTT q)"
  define D where "D = (w * (minRTT q - baseRTT q)) div baseRTT q"
  define d where "d = unat w * (unat (minRTT q) - unat (baseRTT q)) div unat (baseRTT q)"
  define A where "A = qvegas_adjust H P (qvegas_open_window sk) acked T D"
  have nz: "baseRTT q \<noteq> 0" "minRTT q \<noteq> 0"
    using assms(4,5) by (auto simp: one_le_word_iff q_def)
  have cnt: "\<not> cntRTT (inet_csk_ca sk) \<le> 2" using assms(3) by simp
  have e: "tcp_qvegas_cong_avoid H P sk ack acked =
      Inr (qvegas_wipe (qvegas_set_ssthresh H (qvegas_clamp A)))"
    unfolding A_def T_def D_def w_def q_def
    by (rule cong_avoid_delay [OF assms(1) assms(2) cnt nz [unfolded q_def]])
  have Dd: "unat D = d"
    unfolding D_def d_def using assms(5,6) by (simp add: diff_nat q_def w_def)
  have cb: "beta P < D \<longleftrightarrow> unat (beta P) < d" and ca: "D < alpha P \<longleftrightarrow> d < unat (alpha P)"
    by (simp_all add: word_less_nat_alt Dd)
  have At: "tcp_sk A =
     (if unat (beta P) < d
      then (tcp_sk sk)\<lparr>snd_cwnd := w - 1,
                      snd_ssthresh := max (min (snd_ssthresh (tcp_sk sk)) (w - 1 - 1)) 2\<rparr>
      else if d < unat (alpha P) then (tcp_sk sk)\<lparr>snd_cwnd := w + 1\<rparr>
      else (tcp_sk sk)\<lparr>snd_cwnd := w\<rparr>)"
    unfolding A_def
    using assms(7) adjust_avoid_tp [where H = H and s = "qvegas_open_window sk" and P = P and diff = D
        and acked = acked and T = T]
    by (simp add: open_window_fields cb ca w_def q_def)
  have pos: "unat (w - 1) = unat w - 1 \<and> 1 \<le> w" if "unat (beta P) < d"
  proof -
    have "0 < d" using that by simp
    then have "unat w \<noteq> 0" unfolding d_def by (auto intro: ccontr)
    then have "w \<noteq> 0" by (simp add: unat_eq_zero)
    then have "1 \<le> w" by (simp add: one_le_word_iff)
    then show ?thesis by (simp add: unat_sub)
  qed
  have sc: "d = 10" if "baseRTT q = 10000" "minRTT q = 15000" "w = 20"
    using that by (simp add: d_def)
  show ?thesis
    unfolding e
    apply (rule exI, rule conjI, rule refl)
    apply (simp only: Let_def q_def [symmetric] w_def [symmetric] d_def [symmetric])
    using pos sc
    apply (auto simp: wipe_fields set_ssthresh_fields clamp_fields At upd_swap)
    done
qed

theorem C4_avoidance_step_witness:
  "doing_qvegas_now (inet_csk_ca (mk_sock 20 10 1000 0 20 0 5 15000 10000)) \<noteq> 0
   \<and> seq_after linux_host 600 (beg_snd_nxt (inet_csk_ca (mk_sock 20 10 1000 0 20 0 5 15000 10000)))
   \<and> 2 < cntRTT (inet_csk_ca (mk_sock 20 10 1000 0 20 0 5 15000 10000))
   \<and> 1 \<le> baseRTT (inet_csk_ca (mk_sock 20 10 1000 0 20 0 5 15000 10000))
   \<and> baseRTT (inet_csk_ca (mk_sock 20 10 1000 0 20 0 5 15000 10000))
        \<le> minRTT (inet_csk_ca (mk_sock 20 10 1000 0 20 0 5 15000 10000))
   \<and> (20 :: nat) * (15000 - 10000) < 2 ^ 32
   \<and> \<not> tcp_in_slow_start linux_host
         ((tcp_sk (mk_sock 20 10 1000 0 20 0 5 15000 10000))\<lparr>snd_cwnd := 20\<rparr>)
   \<and> unat (beta default_tunables) < 20 * (15000 - 10000) div 10000
   \<and> beta default_tunables = 4
   \<and> (19 :: u32) \<le> snd_cwnd_clamp (tcp_sk (mk_sock 20 10 1000 0 20 0 5 15000 10000))
   \<and> outcome (tcp_qvegas_cong_avoid linux_host default_tunables
         (mk_sock 20 10 1000 0 20 0 5 15000 10000) 600 1) = Inr (19, 13, 19)"
proof -
  have h1: "doing_qvegas_now (inet_csk_ca (mk_sock 20 10 1000 0 20 0 5 15000 10000)) \<noteq> 0"
    by (simp add: mk_sock_def)
  have h2: "seq_after linux_host 600 (beg_snd_nxt (inet_csk_ca (mk_sock 20 10 1000 0 20 0 5 15000 10000)))"
    by (simp add: linux_defs)
  have h3: "2 < cntRTT (inet_csk_ca (mk_sock 20 10 1000 0 20 0 5 15000 10000))"
    by (simp add: mk_sock_def)
  have h4: "1 \<le> baseRTT (inet_csk_ca (mk_sock 20 10 1000 0 20 0 5 15000 10000))"
    by (simp add: mk_sock_def one_le_word_iff)
  have h5: "baseRTT (inet_csk_ca (mk_sock 20 10 1000 0 20 0 5 15000 10000))
        \<le> minRTT (inet_csk_ca (mk_sock 20 10 1000 0 20 0 5 15000 10000))"
    by (simp add: mk_sock_def)
  have h6: "unat (lost_cwnd (inet_csk_ca (mk_sock 20 10 1000 0 20 0 5 15000 10000)))
           * (unat (minRTT (inet_csk_ca (mk_sock 20 10 1000 0 20 0 5 15000 10000)))
              - unat (baseRTT (inet_csk_ca (mk_sock 20 10 1000 0 20 0 5 15000 10000)))) < 2 ^ 32"
    by (simp add: mk_sock_def)
  have h7: "\<not> tcp_in_slow_start linux_host
         ((tcp_sk (mk_sock 20 10 1000 0 20 0 5 15000 10000))
            \<lparr>snd_cwnd := lost_cwnd (inet_csk_ca (mk_sock 20 10 1000 0 20 0 5 15000 10000))\<rparr>)"
    by (simp add: linux_defs)
  from C4_avoidance_step [OF h1 h2 h3 h4 h5 h6 h7, of default_tunables 1]
  obtain sk' where e: "tcp_qvegas_cong_avoid linux_host default_tunables
         (mk_sock 20 10 1000 0 20 0 5 15000 10000) 600 1 = Inr sk'"
    and t: "tcp_sk sk' = (tcp_sk (mk_sock 20 10 1000 0 20 0 5 15000 10000))\<lparr>snd_cwnd := 19, snd_ssthresh := 13\<rparr>"
    and l: "lost_cwnd (inet_csk_ca sk') = 19"
    by (auto simp: Let_def linux_defs)
  show ?thesis
    using h1 h2 h3 h4 h5 h7 by (simp add: e t l outcome_def) (simp add: linux_defs)
qed

text \<open>
  Claim C4 as stated fails: in the avoidance phase with window 4 and \<open>diff = 8 > beta\<close>
  the window is decremented to 3 and then raised to the floor, so the cycle ends with
  window 4. And with window 65536, base RTT 10000 and window minimum 75536 the 32-bit
  product wraps to 0: the claim's \<open>diff\<close> is 429496, above \<open>beta\<close>, while the engine
  increments the window to 65537.
\<close>

theorem C4_counterexample:
  "\<not> tcp_in_slow_start linux_host (tcp_sk (qvegas_open_window (mk_sock 4 2 1000 0 4 0 5 30000 10000)))
   \<and> qvegas_diff (qvegas_open_window (mk_sock 4 2 1000 0 4 0 5 30000 10000)) = Inr 8
   \<and> outcome (tcp_qvegas_cong_avoid linux_host default_tunables
         (mk_sock 4 2 1000 0 4 0 5 30000 10000) 600 1) = Inr (4, 3, 4)
   \<and> \<not> tcp_in_slow_start linux_host
         (tcp_sk (qvegas_open_window (mk_sock 65536 10 100000 0 65536 0 5 75536 10000)))
   \<and> (65536 * (75536 - 10000)) div 10000 = (429496 :: nat)
   \<and> outcome (tcp_qvegas_cong_avoid linux_host default_tunables
         (mk_sock 65536 10 100000 0 65536 0 5 75536 10000) 600 1) = Inr (65537, 49152, 65537)"
  by (simp add: engine_defs linux_defs outcome_def)

text \<open>
  Claim C10, as the code has it: after a delay-based decision the threshold in the
  transport state is the value of the host's \<^verbatim>\<open>tcp_current_ssthresh\<close> on the state left
  by the branch and the clamp, in every branch. Of the private area only the start of the
  measurement window, the sample count, the window minimum and the saved window have
  changed, and the saved window is the final window: what the threshold helper stored
  into \<^verbatim>\<open>lost_cwnd\<close> is overwritten as well.
\<close>

theorem C10_threshold_from_host_function:
  assumes "doing_qvegas_now (inet_csk_ca sk) \<noteq> 0"
    and "seq_after H ack (beg_snd_nxt (inet_csk_ca sk))"
    and "2 < cntRTT (inet_csk_ca sk)"
    and "1 \<le> baseRTT (inet_csk_ca sk)" and "1 \<le> minRTT (inet_csk_ca sk)"
  shows "\<exists>sk'. tcp_qvegas_cong_avoid H P sk ack acked = Inr sk' \<and>
     (let target_cwnd = (ucast (lost_cwnd (inet_csk_ca sk)) * ucast (baseRTT (inet_csk_ca sk)) :: u64)
                          div ucast (minRTT (inet_csk_ca sk));
          diff = (lost_cwnd (inet_csk_ca sk) * (minRTT (inet_csk_ca sk) - baseRTT (inet_csk_ca sk)))
                   div baseRTT (inet_csk_ca sk);
          tp = tcp_sk (qvegas_clamp (qvegas_adjust H P (qvegas_open_window sk) acked target_cwnd diff))
      in tcp_sk sk' = tp\<lparr>snd_ssthresh := tcp_current_ssthresh H tp\<rparr>
         \<and> snd_ssthresh (tcp_sk sk') = tcp_current_ssthresh H tp
         \<and> inet_csk_ca sk' =
             (inet_csk_ca sk)\<lparr>beg_snd_nxt := snd_nxt (tcp_sk sk), cntRTT := 0,
                                minRTT := 0x7fffffff, lost_cwnd := snd_cwnd (tcp_sk sk')\<rparr>)"
proof -
  define T :: u64 where "T = (ucast (lost_cwnd (inet_csk_ca sk)) * ucast (baseRTT (inet_csk_ca sk))) div ucast (minRTT (inet_csk_ca sk))"
  define D where "D = (lost_cwnd (inet_csk_ca sk) * (minRTT (inet_csk_ca sk) - baseRTT (inet_csk_ca sk))) div baseRTT (inet_csk_ca sk)"
  define A where "A = qvegas_adjust H P (qvegas_open_window sk) acked T D"
  have nz: "baseRTT (inet_csk_ca sk) \<noteq> 0" "minRTT (inet_csk_ca sk) \<noteq> 0"
    using assms(4,5) by (simp_all add: one_le_word_iff)
  have cnt: "\<not> cntRTT (inet_csk_ca sk) \<le> 2" using assms(3) by simp
  have e: "tcp_qvegas_cong_avoid H P sk ack acked =
      Inr (qvegas_wipe (qvegas_set_ssthresh H (qvegas_clamp A)))"
    unfolding A_def T_def D_def
    by (rule cong_avoid_delay [OF assms(1) assms(2) cnt nz])
  have c: "inet_csk_ca (qvegas_wipe (qvegas_set_ssthresh H (qvegas_clamp A))) =
      (inet_csk_ca sk)\<lparr>beg_snd_nxt := snd_nxt (tcp_sk sk), cntRTT := 0,
                         minRTT := 0x7fffffff, lost_cwnd := snd_cwnd (tcp_sk (qvegas_clamp A))\<rparr>"
    unfolding wipe_ca set_ssthresh_fields clamp_fields(2) A_def adjust_ca
    by (simp add: open_window_fields)
  show ?thesis
    unfolding e
    apply (rule exI, rule conjI, rule refl)
    apply (simp only: Let_def T_def [symmetric] D_def [symmetric] A_def [symmetric] c)
    apply (simp add: wipe_fields set_ssthresh_fields)
    done
qed

theorem C10_threshold_from_host_function_witness:
  "doing_qvegas_now (inet_csk_ca (mk_sock 20 10 1000 1 20 0 5 15000 10000)) \<noteq> 0
   \<and> seq_after linux_host 600 (beg_snd_nxt (inet_csk_ca (mk_sock 20 10 1000 1 20 0 5 15000 10000)))
   \<and> 2 < cntRTT (inet_csk_ca (mk_sock 20 10 1000 1 20 0 5 15000 10000))
   \<and> 1 \<le> baseRTT (inet_csk_ca (mk_sock 20 10 1000 1 20 0 5 15000 10000))
   \<and> 1 \<le> minRTT (inet_csk_ca (mk_sock 20 10 1000 1 20 0 5 15000 10000))
   \<and> tcp_current_ssthresh linux_host
        ((tcp_sk (mk_sock 20 10 1000 1 20 0 5 15000 10000))\<lparr>snd_cwnd := 19\<rparr>) = 13
   \<and> outcome (tcp_qvegas_cong_avoid linux_host default_tunables
         (mk_sock 20 10 1000 1 20 0 5 15000 10000) 600 1) = Inr (19, 13, 19)"
proof -
  have h1: "doing_qvegas_now (inet_csk_ca (mk_sock 20 10 1000 1 20 0 5 15000 10000)) \<noteq> 0"
    by (simp add: mk_sock_def)
  have h2: "seq_after linux_host 600 (beg_snd_nxt (inet_csk_ca (mk_sock 20 10 1000 1 20 0 5 15000 10000)))"
    by (simp add: linux_defs)
  have h3: "2 < cntRTT (inet_csk_ca (mk_sock 20 10 1000 1 20 0 5 15000 10000))"
    by (simp add: mk_sock_def)
  have h4: "1 \<le> baseRTT (inet_csk_ca (mk_sock 20 10 1000 1 20 0 5 15000 10000))"
    by (simp add: mk_sock_def one_le_word_iff)
  have h5: "1 \<le> minRTT (inet_csk_ca (mk_sock 20 10 1000 1 20 0 5 15000 10000))"
    by (simp add: mk_sock_def one_le_word_iff)
  have a: "tcp_sk (qvegas_clamp (qvegas_adjust linux_host default_tunables
         (qvegas_open_window (mk_sock 20 10 1000 1 20 0 5 15000 10000)) 1 13 10))
       = (tcp_sk (mk_sock 20 10 1000 1 20 0 5 15000 10000))\<lparr>snd_cwnd := 19\<rparr>"
    by (simp add: engine_defs linux_defs)
  have c: "tcp_current_ssthresh linux_host
        ((tcp_sk (mk_sock 20 10 1000 1 20 0 5 15000 10000))\<lparr>snd_cwnd := 19\<rparr>) = 13"
    by (simp add: linux_defs)
  have n: "((ucast (lost_cwnd (inet_csk_ca (mk_sock 20 10 1000 1 20 0 5 15000 10000)))
             * ucast (baseRTT (inet_csk_ca (mk_sock 20 10 1000 1 20 0 5 15000 10000))) :: u64)
           div ucast (minRTT (inet_csk_ca (mk_sock 20 10 1000 1 20 0 5 15000 10000)))) = 13"
    "(lost_cwnd (inet_csk_ca (mk_sock 20 10 1000 1 20 0 5 15000 10000))
        * (minRTT (inet_csk_ca (mk_sock 20 10 1000 1 20 0 5 15000 10000))
           - baseRTT (inet_csk_ca (mk_sock 20 10 1000 1 20 0 5 15000 10000))))
       div baseRTT (inet_csk_ca (mk_sock 20 10 1000 1 20 0 5 15000 10000)) = 10"
    by (simp_all add: mk_sock_def)
  from C10_threshold_from_host_function [OF h1 h2 h3 h4 h5, of default_tunables 1]
  obtain sk' where e: "tcp_qvegas_cong_avoid linux_host default_tunables
         (mk_sock 20 10 1000 1 20 0 5 15000 10000) 600 1 = Inr sk'"
    and t: "tcp_sk sk' = (tcp_sk (mk_sock 20 10 1000 1 20 0 5 15000 10000))
              \<lparr>snd_cwnd := 19, snd_ssthresh := 13\<rparr>"
    and l: "lost_cwnd (inet_csk_ca sk') = snd_cwnd (tcp_sk sk')"
    unfolding Let_def n a c by auto
  show ?thesis
    using h1 h2 h3 h4 h5 c by (simp add: e t l outcome_def)
qed

text \<open>
  Claim C10 as stated fails in its last part: with a lost packet outstanding the helper,
  called in the \<open>diff > beta\<close> branch, stores 9 into \<^verbatim>\<open>lost_cwnd\<close>, and the cycle ends with
  \<^verbatim>\<open>lost_cwnd\<close> equal to the final window 19. The helper's side effect does not persist.
\<close>

theorem C10_counterexample:
  "lost_out (tcp_sk (mk_sock 20 10 1000 1 20 0 5 15000 10000)) \<noteq> 0
   \<and> qvegas_target_cwnd (qvegas_open_window (mk_sock 20 10 1000 1 20 0 5 15000 10000)) = Inr 13
   \<and> qvegas_diff (qvegas_open_window (mk_sock 20 10 1000 1 20 0 5 15000 10000)) = Inr 10
   \<and> lost_cwnd (inet_csk_ca (qvegas_adjust linux_host default_tunables
         (qvegas_open_window (mk_sock 20 10 1000 1 20 0 5 15000 10000)) 1 13 10)) = 9
   \<and> outcome (tcp_qvegas_cong_avoid linux_host default_tunables
         (mk_sock 20 10 1000 1 20 0 5 15000 10000) 600 1) = Inr (19, 13, 19)"
  by (simp add: engine_defs linux_defs outcome_def)

subsection \<open>Runs from a full reset\<close>

lemma init_sane: "rtt_sane (inet_csk_ca (tcp_qvegas_init H sk))"
  by (simp add: rtt_sane_def tcp_qvegas_init_def qvegas_enable_def Let_def one_le_word_iff)

lemma vrtt_ge_1: "\<not> rtt_us <s 0 \<Longrightarrow> 1 \<le> vrtt_of rtt_us"
proof -
  assume "\<not> rtt_us <s 0"
  then have "unat (vrtt_of rtt_us) = nat (sint rtt_us) + 1"
    unfolding vrtt_of_def by (rule vrtt_nonneg)
  then have "unat (vrtt_of rtt_us) \<noteq> 0" by simp
  then show ?thesis by (simp add: word_le_nat_alt)
qed

lemma pkts_acked_sane:
  assumes "rtt_sane (inet_csk_ca sk)"
  shows "rtt_sane (inet_csk_ca (tcp_qvegas_pkts_acked sk rtt_us))"
proof (cases "rtt_us <s 0")
  case True
  then show ?thesis using assms by (simp add: tcp_qvegas_pkts_acked_def)
next
  case False
  then have v: "1 \<le> vrtt_of rtt_us" by (rule vrtt_ge_1)
  show ?thesis
    using assms v False
    by (auto simp: tcp_qvegas_pkts_acked_def rtt_sane_def Let_def min_def)
qed

lemma pkts_acked_base_le:
  "baseRTT (inet_csk_ca (tcp_qvegas_pkts_acked sk rtt_us)) \<le> baseRTT (inet_csk_ca sk)"
  by (auto simp: tcp_qvegas_pkts_acked_def Let_def)

lemma state_sane:
  assumes "rtt_sane (inet_csk_ca sk)"
  shows "rtt_sane (inet_csk_ca (tcp_qvegas_state H sk ca_state))"
  using assms
  by (auto simp: tcp_qvegas_state_def qvegas_enable_def qvegas_disable_def rtt_sane_def Let_def)

lemma state_base:
  "baseRTT (inet_csk_ca (tcp_qvegas_state H sk ca_state)) = baseRTT (inet_csk_ca sk)"
  by (simp add: tcp_qvegas_state_def qvegas_enable_def qvegas_disable_def Let_def)

lemma cwnd_event_sane:
  assumes "rtt_sane (inet_csk_ca sk)"
  shows "rtt_sane (inet_csk_ca (tcp_qvegas_cwnd_event H sk event))"
  using assms by (simp add: tcp_qvegas_cwnd_event_def init_sane)

lemma sane_nonzero:
  assumes "rtt_sane q"
  shows "baseRTT q \<noteq> 0" and "minRTT q \<noteq> 0"
  using assms by (auto simp: rtt_sane_def one_le_word_iff)

lemma reno_ca:
  "inet_csk_ca (qvegas_reno H sk ack acked) =
     (inet_csk_ca sk)\<lparr>reno_inc := reno_inc (inet_csk_ca sk)
        + (snd_cwnd (tcp_reno_cong_avoid H (tcp_sk sk) ack acked) - snd_cwnd (tcp_sk sk))\<rparr>"
  by (simp add: qvegas_reno_def Let_def)

lemma cong_avoid_total:
  assumes "rtt_sane (inet_csk_ca sk)"
  shows "\<exists>sk'. tcp_qvegas_cong_avoid H P sk ack acked = Inr sk'
           \<and> rtt_sane (inet_csk_ca sk')
           \<and> baseRTT (inet_csk_ca sk') = baseRTT (inet_csk_ca sk)"
proof -
  note nz = sane_nonzero [OF assms]
  consider (off) "doing_qvegas_now (inet_csk_ca sk) = 0"
    | (few) "doing_qvegas_now (inet_csk_ca sk) \<noteq> 0" "seq_after H ack (beg_snd_nxt (inet_csk_ca sk))"
        "cntRTT (inet_csk_ca sk) \<le> 2"
    | (delay) "doing_qvegas_now (inet_csk_ca sk) \<noteq> 0" "seq_after H ack (beg_snd_nxt (inet_csk_ca sk))"
        "\<not> cntRTT (inet_csk_ca sk) \<le> 2"
    | (inside) "doing_qvegas_now (inet_csk_ca sk) \<noteq> 0" "\<not> seq_after H ack (beg_snd_nxt (inet_csk_ca sk))"
    by blast
  then show ?thesis
  proof cases
    case off
    then show ?thesis using assms
      by (simp add: tcp_qvegas_cong_avoid_def reno_ca rtt_sane_def)
  next
    case few
    then show ?thesis using assms
      by (simp add: tcp_qvegas_cong_avoid_def Let_def open_window_fields wipe_ca reno_ca rtt_sane_def)
  next
    case delay
    have e: "tcp_qvegas_cong_avoid H P sk ack acked =
     Inr (qvegas_wipe (qvegas_set_ssthresh H (qvegas_clamp (qvegas_adjust H P (qvegas_open_window sk) acked
       ((ucast (lost_cwnd (inet_csk_ca sk)) * ucast (baseRTT (inet_csk_ca sk))) div ucast (minRTT (inet_csk_ca sk)))
       ((lost_cwnd (inet_csk_ca sk) * (minRTT (inet_csk_ca sk) - baseRTT (inet_csk_ca sk))) div baseRTT (inet_csk_ca sk))))))"
      by (rule cong_avoid_delay [OF delay nz])
    show ?thesis using assms
      unfolding e
      by (simp add: wipe_ca set_ssthresh_fields clamp_fields(2) adjust_ca open_window_fields rtt_sane_def)
  next
    case inside
    then show ?thesis using assms
      by (simp add: tcp_qvegas_cong_avoid_def)
  qed
qed

lemma call_sane:
  assumes "rtt_sane (inet_csk_ca sk)"
  shows "\<exists>sk'. qvegas_call H sk c = Inr sk' \<and> rtt_sane (inet_csk_ca sk')
           \<and> (\<not> is_reset c \<longrightarrow> baseRTT (inet_csk_ca sk') \<le> baseRTT (inet_csk_ca sk))"
proof (cases c)
  case Init
  then show ?thesis by (simp add: init_sane)
next
  case (PktsAcked r)
  then show ?thesis using assms by (simp add: pkts_acked_sane pkts_acked_base_le)
next
  case (SetState st)
  then show ?thesis using assms by (simp add: state_sane state_base)
next
  case (CwndEvent ev)
  then show ?thesis using assms cwnd_event_sane [OF assms, of H ev]
    by (auto simp: tcp_qvegas_cwnd_event_def)
next
  case (CongAvoid P ack acked)
  then show ?thesis using cong_avoid_total [OF assms, of H P ack acked] by auto
next
  case (Host tp)
  then show ?thesis using assms by simp
qed

lemma run_sane:
  assumes "rtt_sane (inet_csk_ca sk)"
  shows "\<exists>sk'. run H sk cs = Inr sk' \<and> rtt_sane (inet_csk_ca sk')
           \<and> (no_reset cs \<longrightarrow> baseRTT (inet_csk_ca sk') \<le> baseRTT (inet_csk_ca sk))"
  using assms
proof (induction cs arbitrary: sk)
  case Nil
  then show ?case by simp
next
  case (Cons c cs)
  from call_sane [OF Cons.prems, of H c]
  obtain s1 where c1: "qvegas_call H sk c = Inr s1" and i1: "rtt_sane (inet_csk_ca s1)"
    and m1: "\<not> is_reset c \<longrightarrow> baseRTT (inet_csk_ca s1) \<le> baseRTT (inet_csk_ca sk)"
    by blast
  from Cons.IH [OF i1]
  obtain s2 where c2: "run H s1 cs = Inr s2" and i2: "rtt_sane (inet_csk_ca s2)"
    and m2: "no_reset cs \<longrightarrow> baseRTT (inet_csk_ca s2) \<le> baseRTT (inet_csk_ca s1)"
    by blast
  have "run H sk (c # cs) = Inr s2" using c1 c2 by simp
  moreover have "no_reset (c # cs) \<longrightarrow> baseRTT (inet_csk_ca s2) \<le> baseRTT (inet_csk_ca sk)"
    using m1 m2 by auto
  ultimately show ?case using i2 by blast
qed

text \<open>
  Claim C8: every run of calls that starts with the full reset returns (no call traps),
  and in the state it reaches both RTT minima are at least 1, so both divisions of the
  delay-based computation have a nonzero divisor and the next decision returns as well.
  A sample never raises the base RTT, and over any further calls without a reset the
  base RTT does not increase and stays at least 1.
\<close>

theorem C8_divisors_never_zero:
  "\<exists>s1. run H (tcp_qvegas_init H sk) cs = Inr s1
     \<and> 1 \<le> baseRTT (inet_csk_ca s1) \<and> 1 \<le> minRTT (inet_csk_ca s1)
     \<and> baseRTT (inet_csk_ca s1) \<le> minRTT (inet_csk_ca s1)
     \<and> (\<exists>t. qvegas_target_cwnd (qvegas_open_window s1) = Inr t)
     \<and> (\<exists>d. qvegas_diff (qvegas_open_window s1) = Inr d)
     \<and> (\<exists>s2. tcp_qvegas_cong_avoid H P s1 ack acked = Inr s2)
     \<and> baseRTT (inet_csk_ca (tcp_qvegas_pkts_acked s1 rtt_us)) \<le> baseRTT (inet_csk_ca s1)
     \<and> (no_reset cs' \<longrightarrow>
          (\<exists>s2. run H s1 cs' = Inr s2 \<and> 1 \<le> baseRTT (inet_csk_ca s2)
                \<and> baseRTT (inet_csk_ca s2) \<le> baseRTT (inet_csk_ca s1)))"
proof -
  from run_sane [OF init_sane, of H H sk cs]
  obtain s1 where r: "run H (tcp_qvegas_init H sk) cs = Inr s1"
    and i: "rtt_sane (inet_csk_ca s1)" by blast
  note nz = sane_nonzero [OF i]
  have b: "1 \<le> baseRTT (inet_csk_ca s1)" "baseRTT (inet_csk_ca s1) \<le> minRTT (inet_csk_ca s1)"
    using i by (simp_all add: rtt_sane_def)
  then have m: "1 \<le> minRTT (inet_csk_ca s1)" by (rule order_trans)
  have t: "\<exists>t. qvegas_target_cwnd (qvegas_open_window s1) = Inr t"
    using nz by (simp add: qvegas_target_cwnd_def open_window_fields Let_def)
  have d: "\<exists>d. qvegas_diff (qvegas_open_window s1) = Inr d"
    using nz by (simp add: qvegas_diff_def open_window_fields Let_def)
  have c: "\<exists>s2. tcp_qvegas_cong_avoid H P s1 ack acked = Inr s2"
    using cong_avoid_total [OF i, of H P ack acked] by blast
  have f: "\<exists>s2. run H s1 cs' = Inr s2 \<and> 1 \<le> baseRTT (inet_csk_ca s2)
                \<and> baseRTT (inet_csk_ca s2) \<le> baseRTT (inet_csk_ca s1)" if "no_reset cs'"
    using run_sane [OF i, of H cs'] that by (auto simp: rtt_sane_def)
  show ?thesis
    using r b m t d c f pkts_acked_base_le [of s1 rtt_us] by blast
qed

theorem C8_divisors_never_zero_witness:
  "no_reset [CongAvoid default_tunables 2000 1, PktsAcked 7999 :: linux_priv call]
   \<and> rtt_view (run linux_host (tcp_qvegas_init linux_host (mk_sock 10 0x7fffffff 1000 0 0 0 0 0 0))
         [PktsAcked 9999, PktsAcked 14999, PktsAcked 12000]) = Inr (10000, 10000, 3)
   \<and> rtt_view (run linux_host (tcp_qvegas_init linux_host (mk_sock 10 0x7fffffff 1000 0 0 0 0 0 0))
         [PktsAcked 9999, PktsAcked 14999, PktsAcked 12000,
          CongAvoid default_tunables 2000 1, PktsAcked 7999]) = Inr (8000, 8000, 1)
   \<and> (\<exists>s1 s2. run linux_host (tcp_qvegas_init linux_host (mk_sock 10 0x7fffffff 1000 0 0 0 0 0 0))
                  [PktsAcked 9999, PktsAcked 14999, PktsAcked 12000] = Inr s1
          \<and> run linux_host s1 [CongAvoid default_tunables 2000 1, PktsAcked 7999] = Inr s2
          \<and> 1 \<le> baseRTT (inet_csk_ca s2)
          \<and> baseRTT (inet_csk_ca s2) \<le> baseRTT (inet_csk_ca s1))"
proof -
  have n: "no_reset [CongAvoid default_tunables 2000 1, PktsAcked 7999 :: linux_priv call]"
    by simp
  have v1: "rtt_view (run linux_host (tcp_qvegas_init linux_host (mk_sock 10 0x7fffffff 1000 0 0 0 0 0 0))
         [PktsAcked 9999, PktsAcked 14999, PktsAcked 12000]) = Inr (10000, 10000, 3)"
    by (simp add: rtt_view_def tcp_qvegas_init_def qvegas_enable_def tcp_qvegas_pkts_acked_def
        vrtt_of_def linux_defs Let_def)
  have v2: "rtt_view (run linux_host (tcp_qvegas_init linux_host (mk_sock 10 0x7fffffff 1000 0 0 0 0 0 0))
         [PktsAcked 9999, PktsAcked 14999, PktsAcked 12000,
          CongAvoid default_tunables 2000 1, PktsAcked 7999]) = Inr (8000, 8000, 1)"
    by (simp add: rtt_view_def tcp_qvegas_init_def qvegas_enable_def tcp_qvegas_pkts_acked_def
        vrtt_of_def engine_defs linux_defs)
  from C8_divisors_never_zero
    [where H = linux_host and sk = "mk_sock 10 0x7fffffff 1000 0 0 0 0 0 0"
       and cs = "[PktsAcked 9999, PktsAcked 14999, PktsAcked 12000]"
       and cs' = "[CongAvoid default_tunables 2000 1, PktsAcked 7999]"
       and P = default_tunables and ack = 0 and acked = 0 and rtt_us = 0]
  have "\<exists>s1 s2. run linux_host (tcp_qvegas_init linux_host (mk_sock 10 0x7fffffff 1000 0 0 0 0 0 0))
                  [PktsAcked 9999, PktsAcked 14999, PktsAcked 12000] = Inr s1
          \<and> run linux_host s1 [CongAvoid default_tunables 2000 1, PktsAcked 7999] = Inr s2
          \<and> 1 \<le> baseRTT (inet_csk_ca s2)
          \<and> baseRTT (inet_csk_ca s2) \<le> baseRTT (inet_csk_ca s1)"
    using n by blast
  then show ?thesis using n v1 v2 by blast
qed

end
